theory Spec2Isabelle
  imports Main "HOL-Library.Log_Nat" "HOL-Library.AList"
begin

section \<open>JavaScript numbers\<close>

text \<open>
  Every JavaScript number is an IEEE 754 binary64 value. The finite ones are rationals, and
  each arithmetic operation returns the exact result rounded to the nearest representable
  value, ties to the even significand. The model keeps the 53-bit significand and leaves the
  exponent unbounded: overflow to Infinity and subnormal results are outside the magnitudes
  the scoring code reaches (point values and penalties are integers of ordinary size).
\<close>

type_synonym number = rat

text \<open>\<open>flog2 y\<close> is the binary exponent of a positive \<open>y\<close>: \<open>2^e \<le> y < 2^(e+1)\<close>.\<close>

definition flog2 :: "rat \<Rightarrow> int" where
  "flog2 y = (let (p, q) = quotient_of y; k = bitlen p - bitlen q
              in if 2 powi k \<le> y then k else k - 1)"

definition round_half_even :: "rat \<Rightarrow> int" where
  "round_half_even q =
     (let f = \<lfloor>q\<rfloor>; r = q - of_int f
      in if r < 1/2 then f else if 1/2 < r then f + 1 else if even f then f else f + 1)"

text \<open>Rounding to binary64: the unit in the last place of \<open>x\<close> is \<open>2^(e - 52)\<close>.\<close>

definition rn :: "rat \<Rightarrow> number" where
  "rn x = (if x = 0 then 0 else
     let u = 2 powi (flog2 \<bar>x\<bar> - 52)
     in of_int (round_half_even (x / u)) * u)"

text \<open>
  A decimal literal of the source (\<^verbatim>\<open>0.1\<close>, \<^verbatim>\<open>0.2\<close>, \<^verbatim>\<open>1.0\<close>) denotes the
  binary64 value nearest to it; \<^verbatim>\<open>+\<close>, \<^verbatim>\<open>-\<close> and \<^verbatim>\<open>*\<close> round their exact result.
  \<^verbatim>\<open>Math.ceil\<close> and \<^verbatim>\<open>Math.max\<close> are exact.
\<close>

definition lit :: "rat \<Rightarrow> number" where
  "lit x = rn x"

definition dadd :: "number \<Rightarrow> number \<Rightarrow> number" where
  "dadd a b = rn (a + b)"

definition dsub :: "number \<Rightarrow> number \<Rightarrow> number" where
  "dsub a b = rn (a - b)"

definition dmul :: "number \<Rightarrow> number \<Rightarrow> number" where
  "dmul a b = rn (a * b)"

definition Math_ceil :: "number \<Rightarrow> number" where
  "Math_ceil x = of_int \<lceil>x\<rceil>"

text \<open>\<^verbatim>\<open>v || d\<close> on an optional number: a missing value and \<open>0\<close> are falsy.\<close>

definition js_or :: "number option \<Rightarrow> number \<Rightarrow> number" where
  "js_or v d = (case v of None \<Rightarrow> d | Some x \<Rightarrow> if x = 0 then d else x)"

section \<open>services/points.js: the points calculator\<close>

text \<open>The \<^verbatim>\<open>bot.points\<close> block of the bot configuration; any of the three keys may be absent.\<close>

record points_config =
  starting_points :: "number option"
  hint_base_penalty :: "number option"
  hint_penalty_increase :: "number option"

record PointsCalculator =
  startingPoints :: number
  hintBasePenalty :: number
  hintPenaltyIncrease :: number

text \<open>The constructor: \<^verbatim>\<open>config.bot.points.starting_points || 100\<close> and so on.\<close>

definition new_PointsCalculator :: "points_config \<Rightarrow> PointsCalculator" where
  "new_PointsCalculator cfg =
     \<lparr>startingPoints = js_or (starting_points cfg) 100,
      hintBasePenalty = js_or (hint_base_penalty cfg) 10,
      hintPenaltyIncrease = js_or (hint_penalty_increase cfg) 5\<rparr>"

text \<open>
  The loop \<^verbatim>\<open>for (let i = 0; i < hintsUsed; i++)\<close> of \<^verbatim>\<open>calculatePoints\<close>, started at
  \<open>i = 0\<close> and \<open>hintDeduction = 0\<close>. The counter is an integer (hint counts are far below
  \<open>2^53\<close>, where \<^verbatim>\<open>i++\<close> is exact); penalty and running sum are numbers.
\<close>

function hintDeduction_loop :: "PointsCalculator \<Rightarrow> int \<Rightarrow> int \<Rightarrow> number \<Rightarrow> number" where
  "hintDeduction_loop pc hintsUsed i hintDeduction =
     (if i < hintsUsed then
        (let thisHintPenalty = dadd (hintBasePenalty pc) (dmul (of_int i) (hintPenaltyIncrease pc))
         in hintDeduction_loop pc hintsUsed (i + 1) (dadd hintDeduction thisHintPenalty))
      else hintDeduction)"
  by pat_completeness auto
termination
  by (relation "measure (\<lambda>(pc, hintsUsed, i, hintDeduction). nat (hintsUsed - i))") auto

declare hintDeduction_loop.simps [simp del]

text \<open>
  The first half of \<^verbatim>\<open>calculatePoints\<close>: the value of \<^verbatim>\<open>points\<close> after
  \<^verbatim>\<open>points = Math.max(points, minPoints)\<close>, before the difficulty bonus.
\<close>

definition points_before_bonus :: "PointsCalculator \<Rightarrow> int \<Rightarrow> number" where
  "points_before_bonus pc hintsUsed =
     (let points = startingPoints pc;
          hintDeduction = hintDeduction_loop pc hintsUsed 0 0;
          points = dsub points hintDeduction;
          minPoints = Math_ceil (dmul (startingPoints pc) (lit (1/10)))
      in max points minPoints)"

text \<open>The object literal \<^verbatim>\<open>{2: 0.2, 3: 0.5, 4: 1.0}\<close>, looked up by key.\<close>

definition difficultyBonusFactors :: "int \<Rightarrow> number option" where
  "difficultyBonusFactors d =
     (if d = 2 then Some (lit (2/10))
      else if d = 3 then Some (lit (5/10))
      else if d = 4 then Some (lit 1)
      else None)"

text \<open>
  \<^verbatim>\<open>calculatePoints(hintsUsed, game)\<close>; of \<^verbatim>\<open>game\<close> only \<^verbatim>\<open>game.difficulty\<close> is read,
  and \<^verbatim>\<open>game.difficulty || 1\<close> turns a missing or zero difficulty into 1.
\<close>

definition calculatePoints :: "PointsCalculator \<Rightarrow> int \<Rightarrow> int option \<Rightarrow> number" where
  "calculatePoints pc hintsUsed game_difficulty =
     (let difficulty = (case game_difficulty of None \<Rightarrow> 1 | Some d \<Rightarrow> if d = 0 then 1 else d);
          points = points_before_bonus pc hintsUsed
      in if difficulty > 1 then
           (let bonusFactor = js_or (difficultyBonusFactors difficulty)
                                (dmul (of_int (difficulty - 1)) (lit (1/10)))
            in Math_ceil (dmul points (dadd 1 bonusFactor)))
         else points)"

text \<open>\<^verbatim>\<open>calculateNextHintCost(hintsUsed)\<close>.\<close>

definition calculateNextHintCost :: "PointsCalculator \<Rightarrow> int \<Rightarrow> number" where
  "calculateNextHintCost pc hintsUsed =
     dadd (hintBasePenalty pc) (dmul (of_int hintsUsed) (hintPenaltyIncrease pc))"

subsection \<open>The scoring formula of the specification\<close>

text \<open>
  The reference formula in exact arithmetic over integer constants \<open>S\<close> (starting points),
  \<open>B\<close> (base penalty) and \<open>I\<close> (penalty increase): the cumulative deduction is the sum over
  \<open>k = 0 .. hints_used - 1\<close> of \<open>B + k * I\<close>, the raw score is floored at \<open>ceil (S * 0.1)\<close>,
  the bonus multiplies it and the product is rounded up.
\<close>

definition cumulative_deduction :: "int \<Rightarrow> int \<Rightarrow> nat \<Rightarrow> int" where
  "cumulative_deduction B I h = (\<Sum>k = 0..<h. B + int k * I)"

definition difficulty_bonus :: "int \<Rightarrow> rat" where
  "difficulty_bonus d =
     (if d = 1 then 1 else if d = 2 then 12/10 else if d = 3 then 15/10 else if d = 4 then 2
      else 1 + of_int (d - 1) * (1/10))"

definition reference_raw :: "int \<Rightarrow> int \<Rightarrow> int \<Rightarrow> nat \<Rightarrow> int" where
  "reference_raw S B I h = max (S - cumulative_deduction B I h) \<lceil>of_int S * (1/10 :: rat)\<rceil>"

definition reference_points :: "int \<Rightarrow> int \<Rightarrow> int \<Rightarrow> nat \<Rightarrow> int \<Rightarrow> int" where
  "reference_points S B I h d = \<lceil>of_int (reference_raw S B I h) * difficulty_bonus d\<rceil>"

text \<open>The invariant of the deduction loop used in the proofs below.\<close>

definition loop_inv :: "int \<Rightarrow> int \<Rightarrow> nat \<Rightarrow> number \<Rightarrow> bool" where
  "loop_inv B I n acc \<longleftrightarrow>
     (acc = of_int (cumulative_deduction B I n) \<and> cumulative_deduction B I n < 2 ^ 53)
     \<or> (2 powi 51 \<le> acc \<and> 2 ^ 51 \<le> cumulative_deduction B I n)"

section \<open>utils/validation.js\<close>

text \<open>
  Strings are lists of 8-bit characters; the model is exact on ASCII text, where
  \<^verbatim>\<open>toLowerCase\<close> maps \<open>A..Z\<close> to \<open>a..z\<close> and the class \<^verbatim>\<open>\s\<close> (also the set that
  \<^verbatim>\<open>trim\<close> removes) is tab, line feed, vertical tab, form feed, carriage return and space.
  A missing argument (\<^verbatim>\<open>undefined\<close>, \<^verbatim>\<open>null\<close>) is \<open>None\<close>.
\<close>

definition isSpace :: "char \<Rightarrow> bool" where
  "isSpace c \<longleftrightarrow> c \<in> {CHR 0x09, CHR 0x0A, CHR 0x0B, CHR 0x0C, CHR 0x0D, CHR 0x20}"

definition toLowerCase_char :: "char \<Rightarrow> char" where
  "toLowerCase_char c =
     (let n = (of_char c :: nat) in if 65 \<le> n \<and> n \<le> 90 then char_of (n + 32) else c)"

definition toLowerCase :: "string \<Rightarrow> string" where
  "toLowerCase s = map toLowerCase_char s"

text \<open>
  \<^verbatim>\<open>s.replace(/\s+/g, ' ')\<close>: scanning from the left, each maximal run of whitespace is
  replaced by one space.
\<close>

function collapse_ws :: "string \<Rightarrow> string" where
  "collapse_ws [] = []"
| "collapse_ws (c # cs) =
     (if isSpace c then CHR '' '' # collapse_ws (dropWhile isSpace cs)
      else c # collapse_ws cs)"
  by pat_completeness auto
termination
  by (relation "measure length") (auto simp: less_Suc_eq_le length_dropWhile_le)

definition trim :: "string \<Rightarrow> string" where
  "trim s = rev (dropWhile isSpace (rev (dropWhile isSpace s)))"

text \<open>\<^verbatim>\<open>x.toLowerCase().replace(/\s+/g, ' ').trim()\<close>\<close>

definition normalizeAnswer :: "string \<Rightarrow> string" where
  "normalizeAnswer s = trim (collapse_ws (toLowerCase s))"

definition isCorrectAnswer :: "string option \<Rightarrow> string option \<Rightarrow> bool" where
  "isCorrectAnswer userAnswer correctAnswer =
     (case (userAnswer, correctAnswer) of
        (Some u, Some c) \<Rightarrow>
          if u = [] \<or> c = [] then False
          else normalizeAnswer u = normalizeAnswer c
      | _ \<Rightarrow> False)"

text \<open>\<^verbatim>\<open>Validation.isAdmin(userId, adminList)\<close>\<close>

definition isAdmin :: "string \<Rightarrow> string list \<Rightarrow> bool" where
  "isAdmin userId adminList \<longleftrightarrow> userId \<noteq> [] \<and> userId \<in> set adminList"

text \<open>
  The description of the normal form by the specification, stated on its own: every
  whitespace character becomes a space, a space that follows a space is dropped, and the
  spaces at both ends are removed.
\<close>

fun squeeze_spaces :: "string \<Rightarrow> string" where
  "squeeze_spaces [] = []"
| "squeeze_spaces [c] = [c]"
| "squeeze_spaces (c # d # cs) =
     (if c = CHR '' '' \<and> d = CHR '' '' then squeeze_spaces (d # cs)
      else c # squeeze_spaces (d # cs))"

definition spec_normal_form :: "string \<Rightarrow> string" where
  "spec_normal_form s =
     (let t = squeeze_spaces (map (\<lambda>c. if isSpace c then CHR '' '' else c) (toLowerCase s));
          t = dropWhile (\<lambda>c. c = CHR '' '') t
      in rev (dropWhile (\<lambda>c. c = CHR '' '') (rev t)))"

section \<open>Challenge records and the games directory\<close>

text \<open>
  A challenge is a plain object stored in its own yaml file \<^verbatim>\<open>config/games/<id>.yaml\<close>. The
  record lists the keys that the commands read or write (the free-form keys
  \<^verbatim>\<open>custom_field_1\<close>, \<^verbatim>\<open>notes\<close> and \<^verbatim>\<open>points\<close> of the advanced settings are left out); a key
  that is absent from the object is \<open>None\<close>, and \<^verbatim>\<open>delete obj.key\<close> sets it to \<open>None\<close>.
\<close>

record game =
  name :: string
  description :: string
  author :: string
  owner_id :: "string option"
  answer :: string
  difficulty :: "int option"
  reward_type :: "string option"
  creation_date :: "string option"
  hints :: "string list option"
  badge_class_id :: "string option"
  reward_text :: "string option"
  reward_description :: "string option"
  approved :: "bool option"
  approval_date :: "string option"
  approver_id :: "string option"
  approver_name :: "string option"
  rejected :: "bool option"
  rejection_date :: "string option"
  rejection_reason :: "string option"
  rejector_id :: "string option"
  rejector_name :: "string option"
  disabled :: "bool option"
  disable_reason :: "string option"
  disable_date :: "string option"
  disabled_by :: "string option"
  pending_review :: "bool option"
  edit_reason :: "string option"
  last_modified :: "string option"

text \<open>Truthiness of an optional flag and of an optional string.\<close>

definition truthy :: "bool option \<Rightarrow> bool" where
  "truthy v \<longleftrightarrow> v = Some True"

definition truthy_str :: "string option \<Rightarrow> bool" where
  "truthy_str v \<longleftrightarrow> (case v of None \<Rightarrow> False | Some s \<Rightarrow> s \<noteq> [])"

text \<open>
  The store: the games directory (one entry per file, keyed by the file's base name) and
  the entries of \<^verbatim>\<open>config/games.yaml\<close>, which is also \<^verbatim>\<open>global.config.games\<close>, the index
  that the player commands consult.
\<close>

record store =
  games_dir :: "(string \<times> game) list"
  games_yaml :: "(string \<times> game) list"

text \<open>\<^verbatim>\<open>Validation.isValidGameId(gameId, config)\<close>: the id is a key of \<^verbatim>\<open>config.games\<close>.\<close>

definition isValidGameId :: "string \<Rightarrow> (string \<times> game) list \<Rightarrow> bool" where
  "isValidGameId gameId games \<longleftrightarrow> gameId \<noteq> [] \<and> map_of games gameId \<noteq> None"

text \<open>\<^verbatim>\<open>sanitizeGameData\<close> of maker-manage.js: \<^verbatim>\<open>Number(difficulty) || 1\<close> when the key is present.\<close>

definition sanitizeGameData :: "game \<Rightarrow> game" where
  "sanitizeGameData gameData =
     gameData\<lparr>difficulty := map_option (\<lambda>d. if d = 0 then 1 else d) (difficulty gameData)\<rparr>"

text \<open>\<^verbatim>\<open>getGameById\<close> and \<^verbatim>\<open>getAllGames\<close>, as maker-manage.js has them (sanitising) and as
  maker.js has them (not sanitising).\<close>

definition maker_manage_getGameById :: "store \<Rightarrow> string \<Rightarrow> game option" where
  "maker_manage_getGameById st gameId = map_option sanitizeGameData (map_of (games_dir st) gameId)"

definition maker_manage_getAllGames :: "store \<Rightarrow> (string \<times> game) list" where
  "maker_manage_getAllGames st = map (\<lambda>(gameId, gameData). (gameId, sanitizeGameData gameData)) (games_dir st)"

definition maker_getGameById :: "store \<Rightarrow> string \<Rightarrow> game option" where
  "maker_getGameById st gameId = map_of (games_dir st) gameId"

definition maker_getAllGames :: "store \<Rightarrow> (string \<times> game) list" where
  "maker_getAllGames st = games_dir st"

text \<open>\<^verbatim>\<open>fs.writeFile(gameFilePath, yaml.dump({[gameId]: gameToSave}))\<close>\<close>

definition writeGameFile :: "store \<Rightarrow> string \<Rightarrow> game \<Rightarrow> store" where
  "writeGameFile st gameId gameToSave = st\<lparr>games_dir := AList.update gameId gameToSave (games_dir st)\<rparr>"

text \<open>
  The entry that a rebuild writes into the index for a game (\<^verbatim>\<open>cleanGameData\<close>): seven keys
  are always set, the reward keys only when present, and no other key (in particular no
  \<^verbatim>\<open>owner_id\<close> and no lifecycle flag).
\<close>

definition cleanGameData :: "game \<Rightarrow> game" where
  "cleanGameData gameData =
     \<lparr>name = name gameData,
      description = description gameData,
      author = author gameData,
      owner_id = None,
      answer = answer gameData,
      difficulty = Some (case difficulty gameData of None \<Rightarrow> 1 | Some d \<Rightarrow> if d = 0 then 1 else d),
      reward_type =
        Some (case reward_type gameData of None \<Rightarrow> ''badgr''
              | Some t \<Rightarrow> if t = [] then ''badgr'' else t),
      creation_date = None,
      hints = Some (case hints gameData of None \<Rightarrow> [] | Some hs \<Rightarrow> hs),
      badge_class_id =
        (if reward_type gameData = Some ''badgr'' \<and> truthy_str (badge_class_id gameData)
         then badge_class_id gameData else None),
      reward_text =
        (if reward_type gameData = Some ''badgr'' \<and> truthy_str (badge_class_id gameData) then None
         else if reward_type gameData = Some ''text'' \<and> truthy_str (reward_text gameData)
         then reward_text gameData else None),
      reward_description =
        (if truthy_str (reward_description gameData) then reward_description gameData else None),
      approved = None, approval_date = None, approver_id = None, approver_name = None,
      rejected = None, rejection_date = None, rejection_reason = None, rejector_id = None,
      rejector_name = None,
      disabled = None, disable_reason = None, disable_date = None, disabled_by = None,
      pending_review = None, edit_reason = None, last_modified = None\<rparr>"

text \<open>
  \<^verbatim>\<open>reloadGamesConfig\<close> of maker-manage.js and maker.js, on the list \<open>games\<close> that
  \<^verbatim>\<open>getAllGames\<close> returned: keep the games with \<^verbatim>\<open>approved && !disabled && !rejected\<close>; copy
  from the existing games.yaml every entry without an \<^verbatim>\<open>owner_id\<close>; then add the clean entry of
  each kept game; write the result to games.yaml and to \<^verbatim>\<open>global.config.games\<close>.
\<close>

definition reloadGamesConfig :: "(string \<times> game) list \<Rightarrow> store \<Rightarrow> store" where
  "reloadGamesConfig games st =
     (let approvedGames =
            filter (\<lambda>(gameId, g). truthy (approved g) \<and> \<not> truthy (disabled g) \<and> \<not> truthy (rejected g)) games;
          existing =
            fold (\<lambda>(gameId, gameData) merged.
                    if \<not> truthy_str (owner_id gameData) then AList.update gameId gameData merged
                    else merged)
                 (games_yaml st) [];
          mergedConfig =
            fold (\<lambda>(gameId, gameData) merged. AList.update gameId (cleanGameData gameData) merged)
                 approvedGames existing
      in st\<lparr>games_yaml := mergedConfig\<rparr>)"

definition maker_manage_reloadGamesConfig :: "store \<Rightarrow> store" where
  "maker_manage_reloadGamesConfig st = reloadGamesConfig (maker_manage_getAllGames st) st"

definition maker_reloadGamesConfig :: "store \<Rightarrow> store" where
  "maker_reloadGamesConfig st = reloadGamesConfig (maker_getAllGames st) st"

text \<open>
  \<^verbatim>\<open>global.reloadGamesConfig\<close> of index.js, defined and called in the handler of form
  submissions (the call is commented as the reload on startup): the index is rebuilt from
  the games directory alone, with the clean entry of every game whose \<^verbatim>\<open>approved\<close> is truthy.
\<close>

definition global_reloadGamesConfig :: "store \<Rightarrow> store" where
  "global_reloadGamesConfig st =
     (let mergedConfig =
            fold (\<lambda>(gameId, game) merged.
                    if truthy (approved game) then AList.update gameId (cleanGameData game) merged
                    else merged)
                 (games_dir st) []
      in st\<lparr>games_yaml := mergedConfig\<rparr>)"

text \<open>
  The four lifecycle states, and the state of a record as the admin listing
  (\<^verbatim>\<open>handleListGames\<close>) categorises it: disabled first, then rejected, then approved, and
  pending otherwise.
\<close>

datatype lifecycle = Pending | Approved | Rejected | Disabled

definition game_state :: "game \<Rightarrow> lifecycle" where
  "game_state g =
     (if truthy (disabled g) then Disabled
      else if truthy (rejected g) then Rejected
      else if truthy (approved g) then Approved
      else Pending)"

section \<open>commands/maker-manage.js: approve, reject, disable\<close>

text \<open>
  A handler shows a confirmation dialog with two buttons and acts on the click; \<open>NoClick\<close>
  is the collector ending after its time limit without a click. Today's date
  (\<^verbatim>\<open>new Date().toISOString().split('T')[0]\<close>) and the acting user's id and tag are inputs.
\<close>

datatype button = Confirm | Cancel | NoClick

text \<open>The replies of the maker commands, named after the message each one sends.\<close>

datatype maker_reply =
    PermissionDenied
  | GameNotFound
  | AlreadyApproved
  | CurrentlyDisabled
  | GameApproved
  | ApprovalCancelled
  | FeedbackSent
  | RejectionCancelled
  | GameDisabled
  | GameReenabled
  | OperationCancelled
  | RequestTimedOut
  | NoSubmission
  | GamesListed
  | NameTooLong
  | DescriptionTooLong
  | AnswerTooLong
  | HintsTooLong
  | BadDifficulty
  | ChallengeUpdated
  | ApprovalResetWarning

text \<open>
  The reward check of the approval dialog: when neither a badge class id (type
  \<^verbatim>\<open>badgr\<close>) nor a reward text (type \<^verbatim>\<open>text\<close>) is configured, the dialog carries the field
  ``Reward Warning: No reward configuration found!'' and still offers the Approve button.
\<close>

definition reward_warning :: "game \<Rightarrow> bool" where
  "reward_warning gameData \<longleftrightarrow>
     \<not> (reward_type gameData = Some ''badgr'' \<and> truthy_str (badge_class_id gameData))
     \<and> \<not> (reward_type gameData = Some ''text'' \<and> truthy_str (reward_text gameData))"

text \<open>The object \<^verbatim>\<open>updatedGame\<close> that a confirmed approval builds and saves.\<close>

definition approve_updatedGame :: "game \<Rightarrow> string \<Rightarrow> string \<Rightarrow> string \<Rightarrow> game" where
  "approve_updatedGame gameData user_id user_tag today =
     (let updatedGame = gameData\<lparr>approved := Some True, approval_date := Some today,
                                 approver_id := Some user_id, approver_name := Some user_tag\<rparr>;
          updatedGame = (if truthy (disabled updatedGame)
                         then updatedGame\<lparr>disabled := None, disable_reason := None\<rparr>
                         else updatedGame);
          updatedGame = (if truthy (rejected updatedGame)
                         then updatedGame\<lparr>rejected := None, rejection_reason := None\<rparr>
                         else updatedGame);
          updatedGame = (if truthy (pending_review updatedGame)
                         then updatedGame\<lparr>pending_review := None, edit_reason := None\<rparr>
                         else updatedGame)
      in updatedGame)"

definition handleApproveGame ::
  "store \<Rightarrow> string \<Rightarrow> string \<Rightarrow> string \<Rightarrow> string \<Rightarrow> button \<Rightarrow> maker_reply \<times> store" where
  "handleApproveGame st gameId user_id user_tag today click =
     (case maker_manage_getGameById st gameId of
        None \<Rightarrow> (GameNotFound, st)
      | Some gameData \<Rightarrow>
          if truthy (approved gameData) then (AlreadyApproved, st)
          else if truthy (disabled gameData) then (CurrentlyDisabled, st)
          else (case click of
                  Confirm \<Rightarrow>
                    (GameApproved,
                     maker_manage_reloadGamesConfig
                       (writeGameFile st gameId (approve_updatedGame gameData user_id user_tag today)))
                | Cancel \<Rightarrow> (ApprovalCancelled, st)
                | NoClick \<Rightarrow> (RequestTimedOut, st)))"

text \<open>The object that a confirmed rejection builds and saves.\<close>

definition reject_updatedGame :: "game \<Rightarrow> string \<Rightarrow> string \<Rightarrow> string \<Rightarrow> string \<Rightarrow> game" where
  "reject_updatedGame gameData reason user_id user_tag today =
     (let updatedGame = gameData\<lparr>rejected := Some True, rejection_date := Some today,
                                 rejection_reason := Some reason,
                                 rejector_id := Some user_id, rejector_name := Some user_tag\<rparr>;
          updatedGame = (if truthy (approved updatedGame)
                         then updatedGame\<lparr>approved := None, approval_date := None\<rparr>
                         else updatedGame);
          updatedGame = (if truthy (pending_review updatedGame)
                         then updatedGame\<lparr>pending_review := None\<rparr>
                         else updatedGame)
      in updatedGame)"

definition handleRejectGame ::
  "store \<Rightarrow> string \<Rightarrow> string \<Rightarrow> string \<Rightarrow> string \<Rightarrow> string \<Rightarrow> button \<Rightarrow> maker_reply \<times> store" where
  "handleRejectGame st gameId reason user_id user_tag today click =
     (case maker_manage_getGameById st gameId of
        None \<Rightarrow> (GameNotFound, st)
      | Some gameData \<Rightarrow>
          (case click of
             Confirm \<Rightarrow>
               (FeedbackSent,
                maker_manage_reloadGamesConfig
                  (writeGameFile st gameId (reject_updatedGame gameData reason user_id user_tag today)))
           | Cancel \<Rightarrow> (RejectionCancelled, st)
           | NoClick \<Rightarrow> (RequestTimedOut, st)))"

text \<open>
  \<^verbatim>\<open>handleDisableGame\<close>: on a game that is already disabled the dialog offers to re-enable
  it (\<open>click\<close>); otherwise a form asks for the reason (\<open>modal\<close>, \<open>None\<close> when the form is not
  submitted in time).
\<close>

definition enable_updatedGame :: "game \<Rightarrow> game" where
  "enable_updatedGame gameData =
     gameData\<lparr>disabled := None, disable_reason := None, disable_date := None\<rparr>"

definition disable_updatedGame :: "game \<Rightarrow> string \<Rightarrow> string \<Rightarrow> string \<Rightarrow> game" where
  "disable_updatedGame gameData disableReason user_tag today =
     gameData\<lparr>disabled := Some True, disable_reason := Some disableReason,
               disable_date := Some today, disabled_by := Some user_tag\<rparr>"

definition handleDisableGame ::
  "store \<Rightarrow> string \<Rightarrow> string \<Rightarrow> string \<Rightarrow> button \<Rightarrow> string option \<Rightarrow> maker_reply \<times> store" where
  "handleDisableGame st gameId user_tag today click modal =
     (case maker_manage_getGameById st gameId of
        None \<Rightarrow> (GameNotFound, st)
      | Some gameData \<Rightarrow>
          if truthy (disabled gameData) then
            (case click of
               Confirm \<Rightarrow>
                 (GameReenabled,
                  maker_manage_reloadGamesConfig
                    (writeGameFile st gameId (enable_updatedGame gameData)))
             | Cancel \<Rightarrow> (OperationCancelled, st)
             | NoClick \<Rightarrow> (RequestTimedOut, st))
          else
            (case modal of
               None \<Rightarrow> (NoSubmission, st)
             | Some reasonText \<Rightarrow>
                 (GameDisabled,
                  maker_manage_reloadGamesConfig
                    (writeGameFile st gameId
                       (disable_updatedGame gameData (trim reasonText) user_tag today)))))"

text \<open>\<^verbatim>\<open>execute\<close>: the admin check, then the subcommand.\<close>

datatype subcommand =
    ListGames
  | Approve string button
  | Reject string string button
  | Disable string button "string option"

definition maker_manage_execute ::
  "string list \<Rightarrow> store \<Rightarrow> string \<Rightarrow> string \<Rightarrow> string \<Rightarrow> subcommand \<Rightarrow> maker_reply \<times> store" where
  "maker_manage_execute admins st user_id user_tag today sub =
     (if \<not> isAdmin user_id admins then (PermissionDenied, st)
      else (case sub of
              ListGames \<Rightarrow> (GamesListed, st)
            | Approve gameId click \<Rightarrow> handleApproveGame st gameId user_id user_tag today click
            | Reject gameId reason click \<Rightarrow>
                handleRejectGame st gameId reason user_id user_tag today click
            | Disable gameId click modal \<Rightarrow>
                handleDisableGame st gameId user_tag today click modal))"

section \<open>commands/maker.js: editing a challenge\<close>

text \<open>
  The submitted edit form. The difficulty field is given as the result of \<^verbatim>\<open>parseInt\<close> on
  its trimmed text, \<open>None\<close> for \<^verbatim>\<open>NaN\<close>.
\<close>

record edit_form =
  game_name :: string
  game_description :: string
  game_answer :: string
  game_difficulty :: "int option"
  game_hints :: string

text \<open>\<^verbatim>\<open>text.split('\n')\<close>\<close>

fun split_lines :: "string \<Rightarrow> string list" where
  "split_lines [] = [[]]"
| "split_lines (c # cs) =
     (if c = CHR 0x0A then [] # split_lines cs
      else (case split_lines cs of [] \<Rightarrow> [[c]] | l # ls \<Rightarrow> (c # l) # ls))"

text \<open>\<^verbatim>\<open>hints = gameHintsText ? gameHintsText.split('\n').filter(hint => hint.trim()) : []\<close>\<close>

definition parse_hints :: "string \<Rightarrow> string list" where
  "parse_hints gameHintsText =
     (if gameHintsText = [] then []
      else filter (\<lambda>hint. trim hint \<noteq> []) (split_lines gameHintsText))"

text \<open>
  The object that an accepted edit builds and saves: the five edited keys and the date,
  and, on an approved game whose answer, difficulty or hints differ from the stored ones
  (\<^verbatim>\<open>majorChange\<close>), the reset to pending review.
\<close>

definition edit_updatedGame :: "game \<Rightarrow> string \<Rightarrow> string \<Rightarrow> string \<Rightarrow> int \<Rightarrow> string list \<Rightarrow> string \<Rightarrow> game" where
  "edit_updatedGame gameData gameName gameDesc gameAnswer d newHints today =
     (let updatedGame = gameData\<lparr>name := gameName, description := gameDesc,
                                 answer := gameAnswer, difficulty := Some d,
                                 hints := Some newHints, last_modified := Some today\<rparr>;
          majorChange = (answer gameData \<noteq> gameAnswer
                         \<or> difficulty gameData \<noteq> Some d
                         \<or> hints gameData \<noteq> Some newHints)
      in if truthy (approved updatedGame) \<and> majorChange
         then updatedGame\<lparr>approved := Some False, pending_review := Some True,
                           edit_reason := Some ''Major changes require admin review''\<rparr>
         else updatedGame)"

text \<open>
  \<^verbatim>\<open>handleGameEdit\<close>. On a major change of an approved game the form is answered with the
  warning that the challenge needs a new approval, before the file is written; the file is
  then written and the index rebuilt as for any accepted edit, and the warning is the answer
  that the form has received. Any other accepted edit is answered with ``Challenge Updated''.
\<close>

definition edit_majorChange :: "game \<Rightarrow> string \<Rightarrow> int \<Rightarrow> string list \<Rightarrow> bool" where
  "edit_majorChange gameData gameAnswer d newHints \<longleftrightarrow>
     truthy (approved gameData)
     \<and> (answer gameData \<noteq> gameAnswer
          \<or> difficulty gameData \<noteq> Some d
          \<or> hints gameData \<noteq> Some newHints)"

definition handleGameEdit ::
  "store \<Rightarrow> string list \<Rightarrow> string \<Rightarrow> string \<Rightarrow> edit_form option \<Rightarrow> string \<Rightarrow> maker_reply \<times> store" where
  "handleGameEdit st admins user_id gameId submission today =
     (case maker_getGameById st gameId of
        None \<Rightarrow> (GameNotFound, st)
      | Some gameData \<Rightarrow>
          if owner_id gameData \<noteq> Some user_id \<and> \<not> isAdmin user_id admins then (PermissionDenied, st)
          else (case submission of
                  None \<Rightarrow> (NoSubmission, st)
                | Some form \<Rightarrow>
                    (let gameName = trim (game_name form);
                         gameDesc = trim (game_description form);
                         gameAnswer = trim (game_answer form);
                         gameHintsText = trim (game_hints form)
                     in if length gameName > 100 then (NameTooLong, st)
                        else if length gameDesc > 1000 then (DescriptionTooLong, st)
                        else if length gameAnswer > 100 then (AnswerTooLong, st)
                        else if length gameHintsText > 1500 then (HintsTooLong, st)
                        else (case game_difficulty form of
                                None \<Rightarrow> (BadDifficulty, st)
                              | Some d \<Rightarrow>
                                  if d < 1 \<or> d > 4 then (BadDifficulty, st)
                                  else ((if edit_majorChange gameData gameAnswer d
                                               (parse_hints gameHintsText)
                                         then ApprovalResetWarning else ChallengeUpdated),
                                        maker_reloadGamesConfig
                                          (writeGameFile st gameId
                                             (edit_updatedGame gameData gameName gameDesc gameAnswer d
                                                (parse_hints gameHintsText) today)))))))"

text \<open>The object that \<^verbatim>\<open>handleGameCreate\<close> saves for a new challenge: nine keys, no flag.\<close>

definition new_game ::
  "string \<Rightarrow> string \<Rightarrow> string \<Rightarrow> string \<Rightarrow> string \<Rightarrow> int \<Rightarrow> string \<Rightarrow> string \<Rightarrow> string list \<Rightarrow> game" where
  "new_game gameName gameDesc userName userId gameAnswer d rewardType today hs =
     \<lparr>name = gameName, description = gameDesc, author = userName, owner_id = Some userId,
      answer = gameAnswer, difficulty = Some d, reward_type = Some rewardType,
      creation_date = Some today, hints = Some hs,
      badge_class_id = None, reward_text = None, reward_description = None,
      approved = None, approval_date = None, approver_id = None, approver_name = None,
      rejected = None, rejection_date = None, rejection_reason = None, rejector_id = None,
      rejector_name = None,
      disabled = None, disable_reason = None, disable_date = None, disabled_by = None,
      pending_review = None, edit_reason = None, last_modified = None\<rparr>"

section \<open>services/database.js: users and progress\<close>

text \<open>
  The two tables that the hint, submit and admin commands use. A row of \<^verbatim>\<open>progress\<close> is
  unique per (user id, game id), so the table is a map on that pair. The tables
  \<^verbatim>\<open>rewards\<close> and \<^verbatim>\<open>success_announcements\<close> are written after a completion and never read
  by these commands; they are not part of the state.
\<close>

record user_row =
  user_id :: int
  discord_id :: string
  email :: "string option"
  username :: string

record progress_row =
  completed :: bool
  hints_used :: int
  points_earned :: "int option"
  attempts :: int

record database =
  users :: "user_row list"
  progress :: "int \<times> string \<Rightarrow> progress_row option"

datatype db_error =
    InvalidUserOrGameId
  | ProgressNotFound
  | AlreadyCompleted
  | InvalidAction
  | InvalidPointsValue

definition getUser :: "database \<Rightarrow> string \<Rightarrow> user_row option" where
  "getUser db discordId =
     (if discordId = [] then None else find (\<lambda>u. discord_id u = discordId) (users db))"

text \<open>An \<^verbatim>\<open>UPDATE ... WHERE user_id = ? AND game_id = ?\<close>: it changes the row if there is one.\<close>

definition update_progress ::
  "database \<Rightarrow> int \<times> string \<Rightarrow> (progress_row \<Rightarrow> progress_row) \<Rightarrow> database" where
  "update_progress db key f =
     (case progress db key of
        None \<Rightarrow> db
      | Some row \<Rightarrow> db\<lparr>progress := (progress db)(key \<mapsto> f row)\<rparr>)"

text \<open>\<^verbatim>\<open>getProgress\<close> returns the row, inserting a zeroed one when there is none.\<close>

definition getProgress :: "database \<Rightarrow> int \<Rightarrow> string \<Rightarrow> progress_row option \<times> database" where
  "getProgress db userId gameId =
     (if userId = 0 \<or> gameId = [] then (None, db)
      else (case progress db (userId, gameId) of
              None \<Rightarrow>
                (let fresh = \<lparr>completed = False, hints_used = 0, points_earned = None, attempts = 0\<rparr>
                 in (Some fresh, db\<lparr>progress := (progress db)((userId, gameId) \<mapsto> fresh)\<rparr>))
            | Some row \<Rightarrow> (Some row, db)))"

text \<open>\<^verbatim>\<open>updateHintUsage\<close>: consuming a hint. The error \<open>AlreadyCompleted\<close> is the result
  \<^verbatim>\<open>{ success: false, error: 'Game already completed' }\<close>.\<close>

definition updateHintUsage :: "database \<Rightarrow> int \<Rightarrow> string \<Rightarrow> (db_error + int) \<times> database" where
  "updateHintUsage db userId gameId =
     (if userId = 0 \<or> gameId = [] then (Inl InvalidUserOrGameId, db)
      else (case getProgress db userId gameId of
              (None, db1) \<Rightarrow> (Inl ProgressNotFound, db1)
            | (Some row, db1) \<Rightarrow>
                if completed row then (Inl AlreadyCompleted, db1)
                else (Inr (hints_used row + 1),
                      update_progress db1 (userId, gameId)
                        (\<lambda>r. r\<lparr>hints_used := hints_used r + 1\<rparr>))))"

text \<open>\<^verbatim>\<open>adminManageHints\<close>: action 1 adds a hint, -1 removes one (not below zero), 0 resets.\<close>

definition adminManageHints ::
  "database \<Rightarrow> int \<Rightarrow> string \<Rightarrow> int \<Rightarrow> (db_error + int \<times> int) \<times> database" where
  "adminManageHints db userId gameId action =
     (if userId = 0 \<or> gameId = [] then (Inl InvalidUserOrGameId, db)
      else if action \<noteq> 0 \<and> action \<noteq> - 1 \<and> action \<noteq> 1 then (Inl InvalidAction, db)
      else (case getProgress db userId gameId of
              (None, db1) \<Rightarrow> (Inl ProgressNotFound, db1)
            | (Some row, db1) \<Rightarrow>
                (let newHintCount =
                       (if action = 0 then 0
                        else if action = - 1 then max 0 (hints_used row - 1)
                        else hints_used row + 1)
                 in (Inr (hints_used row, newHintCount),
                     update_progress db1 (userId, gameId) (\<lambda>r. r\<lparr>hints_used := newHintCount\<rparr>)))))"

definition recordAttempt :: "database \<Rightarrow> int \<Rightarrow> string \<Rightarrow> (db_error + unit) \<times> database" where
  "recordAttempt db userId gameId =
     (if userId = 0 \<or> gameId = [] then (Inl InvalidUserOrGameId, db)
      else (Inr (), update_progress db (userId, gameId) (\<lambda>r. r\<lparr>attempts := attempts r + 1\<rparr>)))"

text \<open>\<^verbatim>\<open>completeGame\<close>: the points must pass \<^verbatim>\<open>Number.isInteger\<close> and be non-negative.\<close>

definition completeGame ::
  "database \<Rightarrow> int \<Rightarrow> string \<Rightarrow> number \<Rightarrow> (db_error + unit) \<times> database" where
  "completeGame db userId gameId pointsEarned =
     (if userId = 0 \<or> gameId = [] then (Inl InvalidUserOrGameId, db)
      else if of_int \<lfloor>pointsEarned\<rfloor> \<noteq> pointsEarned \<or> pointsEarned < 0 then (Inl InvalidPointsValue, db)
      else (Inr (),
            update_progress db (userId, gameId)
              (\<lambda>r. r\<lparr>completed := True, points_earned := Some \<lfloor>pointsEarned\<rfloor>\<rparr>)))"

text \<open>\<^verbatim>\<open>resetUserProgress\<close> deletes the rows of one game, or of all games when no game is given.\<close>

definition resetUserProgress :: "database \<Rightarrow> int \<Rightarrow> string option \<Rightarrow> (db_error + unit) \<times> database" where
  "resetUserProgress db userId gameId =
     (if userId = 0 then (Inl InvalidUserOrGameId, db)
      else (Inr (),
            db\<lparr>progress :=
                 (\<lambda>key. if fst key = userId \<and> (\<not> truthy_str gameId \<or> Some (snd key) = gameId)
                        then None else progress db key)\<rparr>))"

section \<open>The player and admin commands on progress\<close>

text \<open>
  \<^verbatim>\<open>judge-hint\<close> (hint.js), \<^verbatim>\<open>judge-submit\<close> (submit.js) and the subcommands
  \<^verbatim>\<open>manage-hints\<close> and \<^verbatim>\<open>reset\<close> of \<^verbatim>\<open>judge-admin\<close> (admin.js). \<open>games\<close> is
  \<^verbatim>\<open>config.games\<close>, the index of approved challenges.

  A command runs in two parts. The first part checks the request on the table it finds and
  shows a form or a dialog; then the command waits (five minutes for the answer form, thirty
  seconds for a dialog), and other commands run in the meantime. The second part is the code
  after \<^verbatim>\<open>awaitModalSubmit\<close>, or the \<^verbatim>\<open>collect\<close> handler of the dialog: it runs on the table
  as it is when the form or the click arrives, with the values that the first part has read.
  Each part is a function of its own, so that the table may change between the two.
\<close>

datatype command_reply =
    NotRegistered
  | InvalidGameId
  | NotAdmin
  | ChallengeAlreadyCompleted
  | NoMoreHints
  | HintFailed db_error
  | HintShown int
  | HintCancelled
  | HintTimedOut
  | NoAnswerSubmitted
  | CorrectAnswer number
  | IncorrectAnswer
  | CannotModifyCompleted
  | HintsManaged int int
  | HintManagementFailed db_error
  | HintManagementCancelled
  | HintManagementTimedOut
  | ProgressReset
  | ResetFailed db_error
  | ResetCancelled
  | ResetTimedOut

text \<open>\<^verbatim>\<open>judge-hint\<close>: the checks before the dialog return the user they have read; the click
  handler calls \<^verbatim>\<open>updateHintUsage\<close>, which reads the row again.\<close>

definition judge_hint_open ::
  "(string \<times> game) list \<Rightarrow> database \<Rightarrow> string \<Rightarrow> string \<Rightarrow> (command_reply + user_row) \<times> database" where
  "judge_hint_open games db userId gameId =
     (case getUser db userId of
        None \<Rightarrow> (Inl NotRegistered, db)
      | Some user \<Rightarrow>
          if \<not> isValidGameId gameId games then (Inl InvalidGameId, db)
          else (case map_of games gameId of
                  None \<Rightarrow> (Inl InvalidGameId, db)
                | Some game \<Rightarrow>
                    (case getProgress db (user_id user) gameId of
                       (userProgress, db1) \<Rightarrow>
                         if (case userProgress of None \<Rightarrow> False | Some p \<Rightarrow> completed p)
                         then (Inl ChallengeAlreadyCompleted, db1)
                         else
                           (let hintsUsed = (case userProgress of None \<Rightarrow> 0 | Some p \<Rightarrow> hints_used p)
                            in if (case hints game of None \<Rightarrow> True
                                   | Some hs \<Rightarrow> hintsUsed \<ge> int (length hs))
                               then (Inl NoMoreHints, db1)
                               else (Inr user, db1)))))"

definition judge_hint_click :: "database \<Rightarrow> user_row \<Rightarrow> string \<Rightarrow> button \<Rightarrow> command_reply \<times> database" where
  "judge_hint_click db user gameId click =
     (case click of
        Confirm \<Rightarrow>
          (case updateHintUsage db (user_id user) gameId of
             (Inl e, db2) \<Rightarrow> (HintFailed e, db2)
           | (Inr updatedHintsUsed, db2) \<Rightarrow> (HintShown updatedHintsUsed, db2))
      | Cancel \<Rightarrow> (HintCancelled, db)
      | NoClick \<Rightarrow> (HintTimedOut, db))"

text \<open>\<^verbatim>\<open>judge-submit\<close>: what the code holds while the answer form is open, namely the
  user, the game id, the game and the progress row read before the form was shown.\<close>

record submit_session =
  submit_user :: user_row
  submit_gameId :: string
  submit_game :: game
  submit_progress :: "progress_row option"

definition judge_submit_open ::
  "(string \<times> game) list \<Rightarrow> database \<Rightarrow> string \<Rightarrow> string
     \<Rightarrow> (command_reply + submit_session) \<times> database" where
  "judge_submit_open games db userId gameId =
     (case getUser db userId of
        None \<Rightarrow> (Inl NotRegistered, db)
      | Some user \<Rightarrow>
          if \<not> isValidGameId gameId games then (Inl InvalidGameId, db)
          else (case map_of games gameId of
                  None \<Rightarrow> (Inl InvalidGameId, db)
                | Some game \<Rightarrow>
                    (case getProgress db (user_id user) gameId of
                       (userProgress, db1) \<Rightarrow>
                         if (case userProgress of None \<Rightarrow> False | Some p \<Rightarrow> completed p)
                         then (Inl ChallengeAlreadyCompleted, db1)
                         else (Inr \<lparr>submit_user = user, submit_gameId = gameId,
                                     submit_game = game, submit_progress = userProgress\<rparr>, db1))))"

text \<open>The code after \<^verbatim>\<open>awaitModalSubmit\<close>. \<open>submission\<close> is the text of the answer form,
  \<open>None\<close> when it is not submitted in time. The hints counted for the points are those of
  the row read before the form was shown; \<^verbatim>\<open>recordAttempt\<close> and \<^verbatim>\<open>completeGame\<close> update
  the row of the current table and do not read it.\<close>

definition judge_submit_modal ::
  "points_config \<Rightarrow> submit_session \<Rightarrow> database \<Rightarrow> string option \<Rightarrow> command_reply \<times> database" where
  "judge_submit_modal pcfg session db submission =
     (case submission of
        None \<Rightarrow> (NoAnswerSubmitted, db)
      | Some userAnswer \<Rightarrow>
          (let db2 = snd (recordAttempt db (user_id (submit_user session)) (submit_gameId session));
               isCorrect = isCorrectAnswer (Some userAnswer) (Some (answer (submit_game session)))
           in if isCorrect then
                (let hintsUsed = (case submit_progress session of None \<Rightarrow> 0
                                  | Some p \<Rightarrow> hints_used p);
                     pointsEarned =
                       calculatePoints (new_PointsCalculator pcfg) hintsUsed
                         (difficulty (submit_game session));
                     db3 = snd (completeGame db2 (user_id (submit_user session))
                                  (submit_gameId session) pointsEarned)
                 in (CorrectAnswer pointsEarned, db3))
              else (IncorrectAnswer, db2)))"

text \<open>\<^verbatim>\<open>judge-admin manage-hints\<close>: the checks before the dialog return the target user
  they have read; the click handler calls \<^verbatim>\<open>adminManageHints\<close>.\<close>

definition judge_admin_manage_hints_open ::
  "string list \<Rightarrow> (string \<times> game) list \<Rightarrow> database \<Rightarrow> string \<Rightarrow> string \<Rightarrow> string
     \<Rightarrow> (command_reply + user_row) \<times> database" where
  "judge_admin_manage_hints_open admins games db adminId targetUserId gameId =
     (if \<not> isAdmin adminId admins then (Inl NotAdmin, db)
      else if \<not> isValidGameId gameId games then (Inl InvalidGameId, db)
      else (case getUser db targetUserId of
              None \<Rightarrow> (Inl NotRegistered, db)
            | Some user \<Rightarrow>
                (case getProgress db (user_id user) gameId of
                   (userProgress, db1) \<Rightarrow>
                     if (case userProgress of None \<Rightarrow> False | Some p \<Rightarrow> completed p)
                     then (Inl CannotModifyCompleted, db1)
                     else (Inr user, db1))))"

definition judge_admin_manage_hints_click ::
  "database \<Rightarrow> user_row \<Rightarrow> string \<Rightarrow> int \<Rightarrow> button \<Rightarrow> command_reply \<times> database" where
  "judge_admin_manage_hints_click db user gameId action click =
     (case click of
        Confirm \<Rightarrow>
          (case adminManageHints db (user_id user) gameId action of
             (Inl e, db2) \<Rightarrow> (HintManagementFailed e, db2)
           | (Inr (previousHints, newHints), db2) \<Rightarrow> (HintsManaged previousHints newHints, db2))
      | Cancel \<Rightarrow> (HintManagementCancelled, db)
      | NoClick \<Rightarrow> (HintManagementTimedOut, db))"

text \<open>A command during whose wait no other command changes the table: the second part runs
  on the table that the first part has left.\<close>

definition judge_hint ::
  "(string \<times> game) list \<Rightarrow> database \<Rightarrow> string \<Rightarrow> string \<Rightarrow> button \<Rightarrow> command_reply \<times> database" where
  "judge_hint games db userId gameId click =
     (case judge_hint_open games db userId gameId of
        (Inl reply, db1) \<Rightarrow> (reply, db1)
      | (Inr user, db1) \<Rightarrow> judge_hint_click db1 user gameId click)"

definition judge_submit ::
  "points_config \<Rightarrow> (string \<times> game) list \<Rightarrow> database \<Rightarrow> string \<Rightarrow> string \<Rightarrow> string option
     \<Rightarrow> command_reply \<times> database" where
  "judge_submit pcfg games db userId gameId submission =
     (case judge_submit_open games db userId gameId of
        (Inl reply, db1) \<Rightarrow> (reply, db1)
      | (Inr session, db1) \<Rightarrow> judge_submit_modal pcfg session db1 submission)"

definition judge_admin_manage_hints ::
  "string list \<Rightarrow> (string \<times> game) list \<Rightarrow> database \<Rightarrow> string \<Rightarrow> string \<Rightarrow> string \<Rightarrow> int \<Rightarrow> button
     \<Rightarrow> command_reply \<times> database" where
  "judge_admin_manage_hints admins games db adminId targetUserId gameId action click =
     (case judge_admin_manage_hints_open admins games db adminId targetUserId gameId of
        (Inl reply, db1) \<Rightarrow> (reply, db1)
      | (Inr user, db1) \<Rightarrow> judge_admin_manage_hints_click db1 user gameId action click)"

text \<open>\<^verbatim>\<open>judge-admin reset\<close> reads no progress row before its dialog; \<open>db\<close> is the table when
  the click arrives, and the click handler deletes the rows.\<close>

definition judge_admin_reset ::
  "string list \<Rightarrow> (string \<times> game) list \<Rightarrow> database \<Rightarrow> string \<Rightarrow> string \<Rightarrow> string option \<Rightarrow> button
     \<Rightarrow> command_reply \<times> database" where
  "judge_admin_reset admins games db adminId targetUserId gameId click =
     (if \<not> isAdmin adminId admins then (NotAdmin, db)
      else if (case gameId of None \<Rightarrow> False
               | Some g \<Rightarrow> g \<noteq> [] \<and> \<not> isValidGameId g games) then (InvalidGameId, db)
      else (case getUser db targetUserId of
              None \<Rightarrow> (NotRegistered, db)
            | Some user \<Rightarrow>
                (case click of
                   Confirm \<Rightarrow>
                     (case resetUserProgress db (user_id user) gameId of
                        (Inl e, db1) \<Rightarrow> (ResetFailed e, db1)
                      | (Inr u, db1) \<Rightarrow> (ProgressReset, db1))
                 | Cancel \<Rightarrow> (ResetCancelled, db)
                 | NoClick \<Rightarrow> (ResetTimedOut, db))))"

section \<open>Concrete data\<close>

text \<open>A challenge as \<^verbatim>\<open>/maker create\<close> saves it, a store holding only that challenge, a
  registered player, and a database in which the player's row for the challenge is open
  or completed. The theorems below are exercised on them.\<close>

definition example_game :: game where
  "example_game =
     new_game ''Quiz'' ''Name the cipher'' ''ann'' ''42'' ''caesar'' 2 ''text'' ''2025-04-03''
       [''old'', ''roman'']"

definition example_store :: store where
  "example_store = \<lparr>games_dir = [(''quiz'', example_game)], games_yaml = []\<rparr>"

definition example_index :: "(string \<times> game) list" where
  "example_index = [(''quiz'', cleanGameData example_game)]"

definition example_user :: user_row where
  "example_user = \<lparr>user_id = 1, discord_id = ''42'', email = None, username = ''ann''\<rparr>"

definition example_open_row :: progress_row where
  "example_open_row = \<lparr>completed = False, hints_used = 2, points_earned = None, attempts = 3\<rparr>"

definition example_completed_row :: progress_row where
  "example_completed_row = \<lparr>completed = True, hints_used = 2, points_earned = Some 90, attempts = 4\<rparr>"

definition example_db_open :: database where
  "example_db_open = \<lparr>users = [example_user], progress = [(1, ''quiz'') \<mapsto> example_open_row]\<rparr>"

definition example_db_completed :: database where
  "example_db_completed =
     \<lparr>users = [example_user], progress = [(1, ''quiz'') \<mapsto> example_completed_row]\<rparr>"

text \<open>What \<^verbatim>\<open>judge-submit\<close> holds for the player while an answer form opened on the open row
  is waiting.\<close>

definition example_submit_session :: submit_session where
  "example_submit_session =
     \<lparr>submit_user = example_user, submit_gameId = ''quiz'',
      submit_game = cleanGameData example_game, submit_progress = Some example_open_row\<rparr>"

definition default_points_config :: points_config where
  "default_points_config =
     \<lparr>starting_points = Some 100, hint_base_penalty = Some 10, hint_penalty_increase = Some 5\<rparr>"

text \<open>The example challenge after an approval, after a rejection, and after an approval
  followed by a disabling.\<close>

definition example_approved_game :: game where
  "example_approved_game = approve_updatedGame example_game ''7'' ''admin#7'' ''2025-04-04''"

definition example_rejected_game :: game where
  "example_rejected_game = reject_updatedGame example_game ''too easy'' ''7'' ''admin#7'' ''2025-04-04''"

definition example_disabled_game :: game where
  "example_disabled_game = disable_updatedGame example_approved_game ''broken link'' ''admin#7'' ''2025-04-05''"

section \<open>Properties of the number model and of the points calculator\<close>

lemma flog2_bounds:
  assumes "0 < y"
  shows "2 powi (flog2 y) \<le> y" and "y < 2 powi (flog2 y + 1)"
proof -
  obtain p q where pq: "quotient_of y = (p, q)" by (cases "quotient_of y")
  have q: "0 < q" using pq quotient_of_denom_pos by blast
  have y: "y = of_int p / of_int q" using pq quotient_of_div by blast
  have p: "0 < p" using assms q y by (simp add: zero_less_divide_iff)
  define k where "k = bitlen p - bitlen q"
  have f: "flog2 y = (if 2 powi k \<le> y then k else k - 1)"
    by (simp add: flog2_def pq k_def Let_def)
  have bp: "2 ^ nat (bitlen p - 1) \<le> p" "p < 2 ^ nat (bitlen p)"
    using bitlen_bounds[OF p] by auto
  have bq: "2 ^ nat (bitlen q - 1) \<le> q" "q < 2 ^ nat (bitlen q)"
    using bitlen_bounds[OF q] by auto
  have bp1: "1 \<le> bitlen p" using p by (simp add: bitlen_alt_def)
  have bq1: "1 \<le> bitlen q" using q by (simp add: bitlen_alt_def)
  have P1: "(2::rat) powi (bitlen p - 1) \<le> of_int p"
  proof -
    have "(of_int (2 ^ nat (bitlen p - 1)) :: rat) \<le> of_int p" using bp(1) of_int_le_iff by blast
    then show ?thesis using bp1 by (simp add: power_int_def)
  qed
  have P2: "of_int p < (2::rat) powi (bitlen p)"
  proof -
    have "(of_int p :: rat) < of_int (2 ^ nat (bitlen p))" using bp(2) of_int_less_iff by blast
    then show ?thesis using bp1 by (simp add: power_int_def)
  qed
  have Q1: "(2::rat) powi (bitlen q - 1) \<le> of_int q"
  proof -
    have "(of_int (2 ^ nat (bitlen q - 1)) :: rat) \<le> of_int q" using bq(1) of_int_le_iff by blast
    then show ?thesis using bq1 by (simp add: power_int_def)
  qed
  have Q2: "of_int q < (2::rat) powi (bitlen q)"
  proof -
    have "(of_int q :: rat) < of_int (2 ^ nat (bitlen q))" using bq(2) of_int_less_iff by blast
    then show ?thesis using bq1 by (simp add: power_int_def)
  qed
  have qpos: "(0::rat) < of_int q" using q by simp
  have lower: "(2::rat) powi (k - 1) < y"
  proof -
    have "(2::rat) powi (k - 1) * of_int q < 2 powi (k - 1) * 2 powi (bitlen q)"
      using Q2 by (simp add: mult_strict_left_mono)
    also have "\<dots> = 2 powi (bitlen p - 1)"
      by (simp add: k_def power_int_add[symmetric])
    also have "\<dots> \<le> of_int p" by (rule P1)
    finally show ?thesis using qpos by (simp add: y pos_less_divide_eq)
  qed
  have upper: "y < (2::rat) powi (k + 1)"
  proof -
    have "of_int p < (2::rat) powi (bitlen p)" by (rule P2)
    also have "\<dots> = 2 powi (k + 1) * 2 powi (bitlen q - 1)"
      by (simp add: k_def power_int_add[symmetric])
    also have "\<dots> \<le> 2 powi (k + 1) * of_int q"
      using Q1 by (simp add: mult_left_mono)
    finally show ?thesis using qpos by (simp add: y pos_divide_less_eq)
  qed
  show "2 powi (flog2 y) \<le> y"
    using lower by (auto simp: f)
  show "y < 2 powi (flog2 y + 1)"
    using upper by (auto simp: f not_le)
qed

lemma rhe_ge_int: "of_int N \<le> q \<Longrightarrow> N \<le> round_half_even q"
proof -
  assume "of_int N \<le> q"
  then have "N \<le> \<lfloor>q\<rfloor>" by (simp add: le_floor_iff)
  then show ?thesis by (auto simp: round_half_even_def Let_def)
qed

lemma rhe_le_int: "q \<le> of_int N \<Longrightarrow> round_half_even q \<le> N"
proof -
  assume a: "q \<le> of_int N"
  then have f: "\<lfloor>q\<rfloor> \<le> N" by (simp add: floor_le_iff) 
  show ?thesis
  proof (cases "\<lfloor>q\<rfloor> = N")
    case True
    then have "q = of_int N" using a of_int_floor_le[of q] by simp
    then show ?thesis by (simp add: round_half_even_def Let_def)
  next
    case False
    then have "\<lfloor>q\<rfloor> + 1 \<le> N" using f by simp
    then show ?thesis by (auto simp: round_half_even_def Let_def)
  qed
qed

lemma rhe_near: 
  assumes "\<bar>q - of_int N\<bar> < 1/2"
  shows "round_half_even q = N"
proof (cases "of_int N \<le> q")
  case True
  then have "\<lfloor>q\<rfloor> = N" using assms by (intro floor_unique) auto
  then show ?thesis using assms True by (simp add: round_half_even_def Let_def)
next
  case False
  then have "\<lfloor>q\<rfloor> = N - 1" using assms by (intro floor_unique) auto
  then show ?thesis using assms False by (simp add: round_half_even_def Let_def)
qed

lemma rn_pos: "0 < y \<Longrightarrow> rn y = of_int (round_half_even (y / 2 powi (flog2 y - 52))) * 2 powi (flog2 y - 52)"
  by (simp add: rn_def Let_def)

lemma powi2_pos: "(0::rat) < 2 powi k"
  by simp

lemma powi2_less_imp: "(2::rat) powi a < 2 powi b \<Longrightarrow> a < b"
proof (rule ccontr)
  assume l: "(2::rat) powi a < 2 powi b" and "\<not> a < b"
  then have "b \<le> a" by simp
  then have "(2::rat) powi b \<le> 2 powi a" by (simp add: power_int_increasing)
  with l show False by simp
qed

lemma flog2_less: 
  assumes "0 < y" "y < 2 powi j" shows "flog2 y < j"
proof -
  have "(2::rat) powi (flog2 y) < 2 powi j" using flog2_bounds(1)[OF assms(1)] assms(2) by simp
  then show ?thesis by (rule powi2_less_imp)
qed

lemma flog2_ge: 
  assumes "2 powi j \<le> y" shows "j \<le> flog2 y"
proof -
  have y: "0 < y" using assms powi2_pos[of j] by linarith
  have "(2::rat) powi j < 2 powi (flog2 y + 1)" using flog2_bounds(2)[OF y] assms by simp
  then have "j < flog2 y + 1" by (rule powi2_less_imp)
  then show ?thesis by simp
qed

text \<open>A grid point m * 2^-k is a multiple of the unit in the last place of y when y < 2^(53-k).\<close>
lemma grid_multiple:
  assumes "0 < y" "y < 2 powi (53 - k)"
  shows "\<exists>M::int. of_int m * 2 powi (- k) = of_int M * (2::rat) powi (flog2 y - 52)"
proof -
  have "flog2 y < 53 - k" using flog2_less[OF assms] .
  then have j: "0 \<le> 52 - k - flog2 y" by simp
  have "(2::rat) powi (- k) = 2 powi (52 - k - flog2 y) * 2 powi (flog2 y - 52)"
    by (simp add: power_int_add[symmetric])
  also have "(2::rat) powi (52 - k - flog2 y) = of_int (2 ^ nat (52 - k - flog2 y))"
    using j by (simp add: power_int_def)
  finally have "of_int m * (2::rat) powi (- k) = of_int (m * 2 ^ nat (52 - k - flog2 y)) * 2 powi (flog2 y - 52)"
    by simp
  then show ?thesis by blast
qed

lemma rn_ge_grid:
  assumes "0 < y" "y < 2 powi (53 - k)" "of_int m * 2 powi (- k) \<le> y"
  shows "of_int m * 2 powi (- k) \<le> rn y"
proof -
  let ?u = "(2::rat) powi (flog2 y - 52)"
  obtain M :: int where M: "of_int m * 2 powi (- k) = of_int M * ?u"
    using grid_multiple[OF assms(1,2)] by blast
  have "of_int M * ?u \<le> y" using assms(3) M by simp
  then have "of_int M \<le> y / ?u" by (simp add: pos_le_divide_eq)
  then have "M \<le> round_half_even (y / ?u)" by (rule rhe_ge_int)
  then have "(of_int M :: rat) \<le> of_int (round_half_even (y / ?u))" by simp
  then have "of_int M * ?u \<le> of_int (round_half_even (y / ?u)) * ?u"
    by (simp add: mult_right_mono)
  then show ?thesis by (simp add: rn_pos[OF assms(1)] M)
qed

lemma rn_le_grid:
  assumes "0 < y" "y < 2 powi (53 - k)" "y \<le> of_int m * 2 powi (- k)"
  shows "rn y \<le> of_int m * 2 powi (- k)"
proof -
  let ?u = "(2::rat) powi (flog2 y - 52)"
  obtain M :: int where M: "of_int m * 2 powi (- k) = of_int M * ?u"
    using grid_multiple[OF assms(1,2)] by blast
  have "y \<le> of_int M * ?u" using assms(3) M by simp
  then have "y / ?u \<le> of_int M" by (simp add: pos_divide_le_eq)
  then have "round_half_even (y / ?u) \<le> M" by (rule rhe_le_int)
  then have "(of_int (round_half_even (y / ?u)) :: rat) \<le> of_int M" by simp
  then have "of_int (round_half_even (y / ?u)) * ?u \<le> of_int M * ?u"
    by (simp add: mult_right_mono)
  then show ?thesis by (simp add: rn_pos[OF assms(1)] M)
qed

lemma rn_near_grid:
  assumes "0 < y" "y < 2 powi (53 - k)" 
    and "\<bar>y - of_int m * 2 powi (- k)\<bar> < 2 powi (flog2 y - 53)"
  shows "rn y = of_int m * 2 powi (- k)"
proof -
  let ?u = "(2::rat) powi (flog2 y - 52)"
  obtain M :: int where M: "of_int m * 2 powi (- k) = of_int M * ?u"
    using grid_multiple[OF assms(1,2)] by blast
  have h: "(2::rat) powi (flog2 y - 53) = ?u / 2"
    by (simp add: power_int_diff)
  have "\<bar>y - of_int M * ?u\<bar> < ?u / 2" using assms(3) M h by simp
  then have "\<bar>y - of_int M * ?u\<bar> / ?u < (?u / 2) / ?u"
    by (simp add: divide_strict_right_mono)
  moreover have "\<bar>y - of_int M * ?u\<bar> / ?u = \<bar>y / ?u - of_int M\<bar>"
    by (simp add: abs_div_pos diff_divide_distrib) 
  ultimately have "\<bar>y / ?u - of_int M\<bar> < 1/2" by simp
  then have "round_half_even (y / ?u) = M" by (rule rhe_near)
  then show ?thesis by (simp add: rn_pos[OF assms(1)] M)
qed

lemma rn_nonpos: "y \<le> 0 \<Longrightarrow> rn y \<le> 0"
proof (cases "y = 0")
  case True then show ?thesis by (simp add: rn_def)
next
  case False
  assume "y \<le> 0"
  let ?u = "(2::rat) powi (flog2 \<bar>y\<bar> - 52)"
  have "y / ?u \<le> of_int 0" using \<open>y \<le> 0\<close> by (simp add: divide_le_0_iff)
  then have "round_half_even (y / ?u) \<le> 0" by (rule rhe_le_int)
  then have "of_int (round_half_even (y / ?u)) * ?u \<le> 0"
    by (simp add: mult_le_0_iff)
  then show ?thesis using False by (simp add: rn_def Let_def)
qed

lemma rn_ge_pow2:
  assumes "2 powi j \<le> y"
  shows "2 powi j \<le> rn y"
proof -
  have y: "0 < y" using assms powi2_pos[of j] by linarith
  let ?e = "flog2 y"
  let ?u = "(2::rat) powi (?e - 52)"
  have je: "j \<le> ?e" using flog2_ge[OF assms] .
  have "(2::rat) powi ?e = of_int (2 ^ 52) * ?u"
    by (simp add: power_int_diff)
  then have "of_int (2 ^ 52) * ?u \<le> y" using flog2_bounds(1)[OF y] by simp
  then have "of_int (2 ^ 52) \<le> y / ?u" by (simp add: pos_le_divide_eq)
  then have "2 ^ 52 \<le> round_half_even (y / ?u)" by (rule rhe_ge_int)
  then have "(of_int (2 ^ 52) :: rat) \<le> of_int (round_half_even (y / ?u))" 
    using of_int_le_iff by blast
  then have "of_int (2 ^ 52) * ?u \<le> of_int (round_half_even (y / ?u)) * ?u"
    by (simp add: mult_right_mono)
  then have "2 powi ?e \<le> rn y" 
    using \<open>(2::rat) powi ?e = of_int (2 ^ 52) * ?u\<close> by (simp add: rn_pos[OF y])
  moreover have "(2::rat) powi j \<le> 2 powi ?e" using je by (simp add: power_int_increasing)
  ultimately show ?thesis by linarith
qed

lemma lit_tenth: "lit (1/10) = 3602879701896397 / 36028797018963968"
  unfolding lit_def by code_simp
lemma factor2: "dadd 1 (lit (2/10)) = 5404319552844595 / 4503599627370496"
  unfolding lit_def dadd_def by code_simp
lemma factor3: "dadd 1 (lit (5/10)) = 3/2"
  unfolding lit_def dadd_def by code_simp
lemma factor4: "dadd 1 (lit 1) = 2"
  unfolding lit_def dadd_def by code_simp

lemma rn_int_exact:
  assumes "0 < m" "m < 2 ^ 53" shows "rn (of_int m) = of_int m"
proof -
  have y: "(0::rat) < of_int m" using assms by simp
  have "(of_int m :: rat) < of_int (2 ^ 53)" using assms(2) of_int_less_iff by blast
  then have b: "(of_int m :: rat) < 2 powi (53 - 0)" by simp
  have "of_int m * 2 powi (- 0) \<le> rn (of_int m)"
    by (rule rn_ge_grid[OF y b]) simp
  moreover have "rn (of_int m) \<le> of_int m * 2 powi (- 0)"
    by (rule rn_le_grid[OF y b]) simp
  ultimately show ?thesis by simp
qed

lemma ceil_between:
  assumes "of_int n - 1 < (x::rat)" "x \<le> of_int n" shows "\<lceil>x\<rceil> = n"
  using assms by (intro ceiling_unique) auto

text \<open>Math.ceil(startingPoints * 0.1)\<close>
lemma minPoints_exact:
  assumes "0 < S" "S < 2 ^ 48"
  shows "Math_ceil (dmul (of_int S) (lit (1/10))) = of_int \<lceil>of_int S / (10::rat)\<rceil>"
proof -
  define n where "n = \<lceil>of_int S / (10::rat)\<rceil>"
  define y :: rat where "y = of_int S * (3602879701896397 / 36028797018963968)"
  have Sr: "(0::rat) < of_int S" "(of_int S :: rat) < 2 ^ 48"
    using assms of_int_less_iff[of S "2 ^ 48", where ?'a = rat] by auto
  have ypos: "0 < y" using Sr by (simp add: y_def)
  have yS: "y = of_int S / 10 + of_int S / 180143985094819840" by (simp add: y_def)
  have ylt: "y < 2 powi (53 - 4)" using Sr by (simp add: y_def)
  have n1: "of_int S / (10::rat) \<le> of_int n" "of_int n - 1 < of_int S / (10::rat)"
    unfolding n_def by linarith+
  have "(of_int (10 * (n - 1)) :: rat) < of_int S" using n1(2) by simp
  then have "10 * (n - 1) < S" using of_int_less_iff by blast
  then have "10 * (n - 1) + 1 \<le> S" by simp
  then have "(of_int (10 * (n - 1) + 1) :: rat) \<le> of_int S" using of_int_le_iff by blast
  then have lowS: "of_int n - 9/10 \<le> of_int S / (10::rat)" by simp
  have lower: "of_int (16 * n - 15) * 2 powi (- 4) \<le> rn y"
  proof (rule rn_ge_grid[OF ypos ylt])
    have "of_int (16 * n - 15) * 2 powi (- 4) = (of_int n :: rat) - 15/16"
      by (simp add: power_int_minus field_simps)
    also have "\<dots> \<le> of_int S / 10" using lowS by simp
    also have "\<dots> \<le> y" using Sr by (simp add: yS)
    finally show "of_int (16 * n - 15) * 2 powi (- 4) \<le> y" .
  qed
  have l2: "of_int n - 1 < rn y"
  proof -
    have "(of_int n :: rat) - 1 < of_int n - 15/16" by simp
    also have "\<dots> = of_int (16 * n - 15) * 2 powi (- 4)" by (simp add: power_int_minus field_simps)
    finally show ?thesis using lower by linarith
  qed
  have upper: "rn y \<le> of_int n"
  proof (cases "of_int S / (10::rat) = of_int n")
    case True
    have npos: "(0::rat) < of_int n" using True Sr(1) by (simp add: True[symmetric])
    have yn: "y = of_int n + of_int n / 18014398509481984" using True by (simp add: yS)
    have nle: "of_int n \<le> y" using npos by (simp add: yn)
    have "y < 2 powi (flog2 y + 1)" using flog2_bounds(2)[OF ypos] .
    then have "of_int n < (2::rat) powi (flog2 y + 1)" using nle by linarith
    then have "of_int n / 18014398509481984 < (2::rat) powi (flog2 y + 1) / 18014398509481984"
      by (simp add: divide_strict_right_mono)
    also have "\<dots> = 2 powi (flog2 y - 53)"
      by (simp add: power_int_add power_int_diff)
    finally have "\<bar>y - of_int n * 2 powi (- 0)\<bar> < 2 powi (flog2 y - 53)"
      using npos by (simp add: yn)
    moreover have "y < 2 powi (53 - 0)"
    proof -
      have "(2::rat) powi (53 - 4) \<le> 2 powi (53 - 0)" by (rule power_int_increasing) auto
      then show ?thesis using ylt by linarith
    qed
    ultimately have "rn y = of_int n * 2 powi (- 0)"
      using rn_near_grid[OF ypos, of 0 n] by blast
    then show ?thesis by simp
  next
    case False
    then have "of_int S / (10::rat) < of_int n" using n1(1) by simp
    then have "(of_int S :: rat) < of_int (10 * n)" by simp
    then have "S < 10 * n" using of_int_less_iff by blast
    then have "S \<le> 10 * n - 1" by simp
    then have "(of_int S :: rat) \<le> of_int (10 * n - 1)" using of_int_le_iff by blast
    then have "of_int S / (10::rat) \<le> of_int n - 1/10" by simp
    then have "y \<le> of_int n - 1/10 + of_int S / 180143985094819840" by (simp add: yS)
    also have "\<dots> \<le> of_int n" using Sr by simp
    finally have "y \<le> of_int n * 2 powi (- 4 + 4)" by simp
    have "rn y \<le> of_int (16 * n) * 2 powi (- 4)"
    proof (rule rn_le_grid[OF ypos ylt])
      show "y \<le> of_int (16 * n) * 2 powi (- 4)" 
        using \<open>y \<le> of_int n - 1/10 + of_int S / 180143985094819840\<close> Sr
        by (simp add: power_int_minus)
    qed
    then show ?thesis by (simp add: power_int_minus)
  qed
  have "\<lceil>rn y\<rceil> = n" using l2 upper by (rule ceil_between)
  then show ?thesis
    by (simp add: Math_ceil_def dmul_def lit_tenth y_def n_def)
qed

lemma bonus2_exact:
  assumes "0 < p" "p < 2 ^ 48"
  shows "Math_ceil (dmul (of_int p) (dadd 1 (lit (2/10)))) = of_int \<lceil>of_int p * (6/5::rat)\<rceil>"
proof -
  define n where "n = \<lceil>of_int p * (6/5::rat)\<rceil>"
  define y :: rat where "y = of_int p * (5404319552844595 / 4503599627370496)"
  have pr: "(0::rat) < of_int p" "(of_int p :: rat) < 2 ^ 48"
    using assms of_int_less_iff[of p "2 ^ 48", where ?'a = rat] by auto
  have ypos: "0 < y" using pr by (simp add: y_def)
  have yp: "y = of_int p * (6/5) - of_int p / 22517998136852480" by (simp add: y_def)
  have ylt: "y < 2 powi (53 - 3)" using pr by (simp add: y_def)
  have n1: "of_int p * (6/5::rat) \<le> of_int n" "of_int n - 1 < of_int p * (6/5::rat)"
    unfolding n_def by linarith+
  have "(of_int (5 * (n - 1)) :: rat) < of_int (6 * p)" using n1(2) by simp
  then have "5 * (n - 1) < 6 * p" using of_int_less_iff by blast
  then have "5 * (n - 1) + 1 \<le> 6 * p" by simp
  then have "(of_int (5 * (n - 1) + 1) :: rat) \<le> of_int (6 * p)" using of_int_le_iff by blast
  then have lowp: "of_int n - 4/5 \<le> of_int p * (6/5::rat)" by simp
  have lower: "of_int (8 * n - 7) * 2 powi (- 3) \<le> rn y"
  proof (rule rn_ge_grid[OF ypos ylt])
    have "of_int (8 * n - 7) * 2 powi (- 3) = (of_int n :: rat) - 7/8"
      by (simp add: power_int_minus field_simps)
    also have "\<dots> \<le> of_int p * (6/5) - 3/40" using lowp by simp
    also have "\<dots> \<le> y" using pr by (simp add: yp)
    finally show "of_int (8 * n - 7) * 2 powi (- 3) \<le> y" .
  qed
  have l2: "of_int n - 1 < rn y"
  proof -
    have "(of_int n :: rat) - 1 < of_int n - 7/8" by simp
    also have "\<dots> = of_int (8 * n - 7) * 2 powi (- 3)" by (simp add: power_int_minus field_simps)
    finally show ?thesis using lower by linarith
  qed
  have "rn y \<le> of_int (8 * n) * 2 powi (- 3)"
  proof (rule rn_le_grid[OF ypos ylt])
    have "y \<le> of_int p * (6/5)" using pr by (simp add: yp)
    also have "\<dots> \<le> of_int n" by (rule n1(1))
    finally show "y \<le> of_int (8 * n) * 2 powi (- 3)" by (simp add: power_int_minus)
  qed
  then have upper: "rn y \<le> of_int n" by (simp add: power_int_minus)
  have "\<lceil>rn y\<rceil> = n" using l2 upper by (rule ceil_between)
  then show ?thesis
    unfolding Math_ceil_def dmul_def factor2 by (simp add: y_def n_def)
qed

lemma bonus3_exact:
  assumes "0 < p" "p < 2 ^ 48"
  shows "Math_ceil (dmul (of_int p) (dadd 1 (lit (5/10)))) = of_int \<lceil>of_int p * (3/2::rat)\<rceil>"
proof -
  define y :: rat where "y = of_int p * (3/2)"
  have pr: "(0::rat) < of_int p" "(of_int p :: rat) < 2 ^ 48"
    using assms of_int_less_iff[of p "2 ^ 48", where ?'a = rat] by auto
  have ypos: "0 < y" using pr by (simp add: y_def)
  have ylt: "y < 2 powi (53 - 1)" using pr by (simp add: y_def)
  have g: "y = of_int (3 * p) * 2 powi (- 1)" by (simp add: y_def power_int_minus)
  have "of_int (3 * p) * 2 powi (- 1) \<le> rn y"
    by (rule rn_ge_grid[OF ypos ylt]) (simp add: g)
  moreover have "rn y \<le> of_int (3 * p) * 2 powi (- 1)"
    by (rule rn_le_grid[OF ypos ylt]) (simp add: g)
  ultimately have "rn y = y" using g by linarith
  then have "\<lceil>rn y\<rceil> = \<lceil>y\<rceil>" by (rule arg_cong)
  then show ?thesis unfolding Math_ceil_def dmul_def factor3 y_def by (simp only:)
qed

lemma bonus4_exact:
  assumes "0 < p" "p < 2 ^ 48"
  shows "Math_ceil (dmul (of_int p) (dadd 1 (lit 1))) = of_int (p * 2)"
proof -
  have "rn (of_int (p * 2)) = of_int (p * 2)"
    by (rule rn_int_exact) (use assms in auto)
  then show ?thesis unfolding Math_ceil_def dmul_def factor4 by simp
qed

lemma cumulative_deduction_Suc:
  "cumulative_deduction B I (Suc n) = cumulative_deduction B I n + (B + int n * I)"
  by (simp add: cumulative_deduction_def)

lemma cumulative_deduction_nonneg:
  "0 \<le> B \<Longrightarrow> 0 \<le> I \<Longrightarrow> 0 \<le> cumulative_deduction B I n"
  by (simp add: cumulative_deduction_def sum_nonneg)

lemma rn_nonneg: "0 \<le> y \<Longrightarrow> 0 \<le> rn y"
proof (cases "y = 0")
  case True then show ?thesis by (simp add: rn_def)
next
  case False
  assume "0 \<le> y"
  then have y: "0 < y" using False by simp
  let ?u = "(2::rat) powi (flog2 y - 52)"
  have "of_int 0 \<le> y / ?u" using y by simp
  then have "0 \<le> round_half_even (y / ?u)" by (rule rhe_ge_int)
  then show ?thesis by (simp add: rn_pos[OF y])
qed

lemma rn_int_exact0:
  assumes "0 \<le> m" "m < 2 ^ 53" shows "rn (of_int m) = of_int m"
proof (cases "m = 0")
  case True then show ?thesis by (simp add: rn_def)
next
  case False then show ?thesis using assms by (intro rn_int_exact) auto
qed

lemma of_int_pow2_le: "(2::int) ^ k \<le> m \<Longrightarrow> (2::rat) powi (int k) \<le> of_int m"
proof -
  assume "(2::int) ^ k \<le> m"
  then have "(of_int (2 ^ k) :: rat) \<le> of_int m" using of_int_le_iff by blast
  then show ?thesis by (simp add: power_int_def)
qed

lemma loop_step:
  assumes B: "0 < B" "B < 2 ^ 48" and I: "0 < I" "I < 2 ^ 48"
    and inv: "loop_inv B I n acc"
  shows "loop_inv B I (Suc n)
           (dadd acc (dadd (of_int B) (dmul (of_int (int n)) (of_int I))))"
proof -
  let ?d = "cumulative_deduction B I n"
  let ?d' = "cumulative_deduction B I (Suc n)"
  let ?pen = "dadd (of_int B) (dmul (of_int (int n)) (of_int I))"
  have d': "?d' = ?d + (B + int n * I)" by (rule cumulative_deduction_Suc)
  have d0: "0 \<le> ?d" using B I by (simp add: cumulative_deduction_nonneg)
  have nI: "0 \<le> int n * I" using I by simp
  have mul0: "0 \<le> dmul (of_int (int n)) (of_int I)"
    unfolding dmul_def using nI I by (intro rn_nonneg) simp
  have pen0: "0 \<le> ?pen"
    unfolding dadd_def using mul0 B by (intro rn_nonneg) simp
  show ?thesis
  proof (cases "2 ^ 51 \<le> ?d")
    case True
    have "2 powi 51 \<le> acc"
      using inv True of_int_pow2_le[of 51 ?d] by (auto simp: loop_inv_def)
    then have "2 powi 51 \<le> acc + ?pen" using pen0 by linarith
    then have "2 powi 51 \<le> dadd acc ?pen" unfolding dadd_def by (rule rn_ge_pow2)
    moreover have "2 ^ 51 \<le> ?d'" using True d' B nI by linarith
    ultimately show ?thesis by (simp add: loop_inv_def)
  next
    case False
    then have acc: "acc = of_int ?d" using inv by (auto simp: loop_inv_def)
    show ?thesis
    proof (cases "?d' < 2 ^ 53")
      case True
      have "int n * I < 2 ^ 53" using True d' d0 B by linarith
      then have "rn (of_int (int n * I)) = of_int (int n * I)"
        using nI by (intro rn_int_exact0) auto
      then have m: "dmul (of_int (int n)) (of_int I) = of_int (int n * I)"
        by (simp add: dmul_def)
      have "B + int n * I < 2 ^ 53" using True d' d0 by linarith
      then have "rn (of_int (B + int n * I)) = of_int (B + int n * I)"
        using nI B by (intro rn_int_exact0) auto
      then have p: "?pen = of_int (B + int n * I)"
        unfolding dadd_def m by simp
      have "rn (of_int ?d') = of_int ?d'"
        using True d0 d' B nI by (intro rn_int_exact0) auto
      then have "rn (of_int ?d + of_int (B + int n * I)) = of_int ?d'"
        unfolding d' by simp
      then have "dadd acc ?pen = of_int ?d'"
        unfolding p acc by (simp only: dadd_def)
      then show ?thesis using True by (simp add: loop_inv_def)
    next
      case d'big: False
      have "2 ^ 51 \<le> int n * I" using d'big d' False B by simp
      then have "(2::rat) powi (int 51) \<le> of_int (int n * I)" by (rule of_int_pow2_le)
      then have "(2::rat) powi 51 \<le> of_int (int n * I)" by (simp only: of_nat_numeral)
      then have "2 powi 51 \<le> rn (of_int (int n * I))" by (rule rn_ge_pow2)
      then have "2 powi 51 \<le> dmul (of_int (int n)) (of_int I)" by (simp add: dmul_def)
      then have "2 powi 51 \<le> of_int B + dmul (of_int (int n)) (of_int I)" using B by simp
      then have "2 powi 51 \<le> ?pen" unfolding dadd_def by (rule rn_ge_pow2)
      then have "2 powi 51 \<le> acc + ?pen" using d0 acc by simp
      then have "2 powi 51 \<le> dadd acc ?pen" unfolding dadd_def by (rule rn_ge_pow2)
      moreover have "2 ^ 51 \<le> ?d'" using d'big by simp
      ultimately show ?thesis by (simp add: loop_inv_def)
    qed
  qed
qed

lemma loop_invariant:
  assumes B: "0 < B" "B < 2 ^ 48" and I: "0 < I" "I < 2 ^ 48"
  shows "hintBasePenalty pc = of_int B \<Longrightarrow> hintPenaltyIncrease pc = of_int I \<Longrightarrow>
         0 \<le> i \<Longrightarrow> loop_inv B I (nat i) acc \<Longrightarrow>
         loop_inv B I (nat (max i h)) (hintDeduction_loop pc h i acc)"
proof (induction pc h i acc rule: hintDeduction_loop.induct)
  case (1 pc hintsUsed i hintDeduction)
  show ?case
  proof (cases "i < hintsUsed")
    case True
    have s: "Suc (nat i) = nat (i + 1)" using "1.prems"(3) by simp
    have "loop_inv B I (Suc (nat i))
           (dadd hintDeduction (dadd (of_int B) (dmul (of_int (int (nat i))) (of_int I))))"
      by (rule loop_step[OF B I "1.prems"(4)])
    then have "loop_inv B I (nat (i + 1))
           (dadd hintDeduction (dadd (hintBasePenalty pc) (dmul (of_int i) (hintPenaltyIncrease pc))))"
      using "1.prems"(3) s by (simp add: "1.prems"(1,2))
    then have "loop_inv B I (nat (max (i + 1) hintsUsed))
       (hintDeduction_loop pc hintsUsed (i + 1)
          (dadd hintDeduction (dadd (hintBasePenalty pc) (dmul (of_int i) (hintPenaltyIncrease pc)))))"
      using "1.IH"[OF True refl "1.prems"(1,2)] "1.prems"(3) by simp
    moreover have "max (i + 1) hintsUsed = max i hintsUsed" using True by simp
    ultimately show ?thesis using True
      by (subst hintDeduction_loop.simps) (simp add: Let_def)
  next
    case False
    then have "max i hintsUsed = i" by simp
    then show ?thesis using False "1.prems"(4)
      by (subst hintDeduction_loop.simps) simp
  qed
qed

lemma points_before_bonus_exact:
  assumes S: "0 < S" "S < 2 ^ 48" and B: "0 < B" "B < 2 ^ 48" and I: "0 < I" "I < 2 ^ 48"
    and pc: "pc = \<lparr>startingPoints = of_int S, hintBasePenalty = of_int B,
                   hintPenaltyIncrease = of_int I\<rparr>"
  shows "points_before_bonus pc h = of_int (reference_raw S B I (nat h))"
proof -
  let ?d = "cumulative_deduction B I (nat h)"
  let ?acc = "hintDeduction_loop pc h 0 0"
  let ?m = "\<lceil>of_int S / (10::rat)\<rceil>"
  have inv0: "loop_inv B I (nat 0) 0"
    by (simp add: loop_inv_def cumulative_deduction_def)
  have "loop_inv B I (nat (max 0 h)) ?acc"
    by (rule loop_invariant[OF B I _ _ _ inv0]) (simp_all add: pc)
  moreover have "nat (max 0 h) = nat h" by simp
  ultimately have inv: "loop_inv B I (nat h) ?acc" by simp
  have minP: "Math_ceil (dmul (startingPoints pc) (lit (1/10))) = of_int ?m"
    using minPoints_exact[OF S] by (simp add: pc)
  have m1: "1 \<le> ?m" using S by (simp add: le_ceiling_iff) 
  have d0: "0 \<le> ?d" using B I by (simp add: cumulative_deduction_nonneg)
  have pts: "max (dsub (of_int S) ?acc) (of_int ?m) = of_int (max (S - ?d) ?m)"
  proof (cases "0 < S - ?d \<and> ?acc = of_int ?d")
    case True
    have "rn (of_int (S - ?d)) = of_int (S - ?d)"
      using True d0 S by (intro rn_int_exact) auto
    then have "dsub (of_int S) ?acc = of_int (S - ?d)"
      using True by (simp add: dsub_def)
    then show ?thesis by (simp only: of_int_max)
  next
    case False
    have neg: "of_int S - ?acc \<le> 0 \<and> S - ?d \<le> 0"
    proof (cases "?acc = of_int ?d")
      case True
      then show ?thesis using False by simp
    next
      case F: False
      then have big: "2 powi 51 \<le> ?acc" "2 ^ 51 \<le> ?d" using inv by (auto simp: loop_inv_def)
      have "(of_int S :: rat) < 2 ^ 48" using S(2) of_int_less_iff[of S "2 ^ 48", where ?'a = rat] by simp
      then have "of_int S - ?acc \<le> 0" using big(1) by simp
      moreover have "S - ?d \<le> 0" using big(2) S(2) by simp
      ultimately show ?thesis by simp
    qed
    then have "dsub (of_int S) ?acc \<le> 0" unfolding dsub_def by (intro rn_nonpos) simp
    moreover have "(1::rat) \<le> of_int ?m" using m1 by simp
    ultimately have "dsub (of_int S) ?acc \<le> of_int ?m" by linarith
    then have "max (dsub (of_int S) ?acc) (of_int ?m) = of_int ?m" by (rule max_absorb2)
    moreover have "S - ?d \<le> ?m" using neg m1 by linarith
    then have "max (S - ?d) ?m = ?m" by (rule max_absorb2)
    ultimately show ?thesis by (simp only:)
  qed
  show ?thesis
    unfolding points_before_bonus_def Let_def minP reference_raw_def using pts by (simp add: pc)
qed

lemma reference_raw_bounds:
  assumes S: "0 < S" and B: "0 < B" and I: "0 < I"
  shows "1 \<le> reference_raw S B I h" "reference_raw S B I h \<le> S"
proof -
  have m1: "1 \<le> \<lceil>of_int S * (1/10 :: rat)\<rceil>" using S by (simp add: le_ceiling_iff)
  moreover have "\<lceil>of_int S * (1/10 :: rat)\<rceil> \<le> reference_raw S B I h"
    unfolding reference_raw_def by (rule max.cobounded2)
  ultimately show "1 \<le> reference_raw S B I h" by linarith
  have "of_int S * (1/10 :: rat) \<le> of_int S" using S by simp
  then have "\<lceil>of_int S * (1/10 :: rat)\<rceil> \<le> S" by (simp add: ceiling_le_iff)
  moreover have "0 \<le> cumulative_deduction B I h"
    using B I by (simp add: cumulative_deduction_nonneg)
  ultimately show "reference_raw S B I h \<le> S" by (simp add: reference_raw_def)
qed

lemma lit_fifth: "lit (1/5) = 3602879701896397 / 18014398509481984"
  unfolding lit_def by code_simp
lemma lit_half: "lit (1/2) = 1/2"
  unfolding lit_def by code_simp
lemma lit_one: "lit 1 = 1"
  unfolding lit_def by code_simp

lemma bonusFactor_table:
  "js_or (difficultyBonusFactors 2) x = lit (1/5)"
  "js_or (difficultyBonusFactors 3) x = lit (1/2)"
  "js_or (difficultyBonusFactors 4) x = lit 1"
  by (simp_all add: difficultyBonusFactors_def js_or_def lit_fifth lit_half lit_one)

lemma calculatePoints_exact:
  assumes S: "0 < S" "S < 2 ^ 48" and B: "0 < B" "B < 2 ^ 48" and I: "0 < I" "I < 2 ^ 48"
    and pc: "pc = \<lparr>startingPoints = of_int S, hintBasePenalty = of_int B,
                   hintPenaltyIncrease = of_int I\<rparr>"
    and d: "d = 1 \<or> d = 2 \<or> d = 3 \<or> d = 4"
  shows "calculatePoints pc h (Some d) = of_int (reference_points S B I (nat h) d)"
proof -
  let ?p = "reference_raw S B I (nat h)"
  have raw: "points_before_bonus pc h = of_int ?p"
    by (rule points_before_bonus_exact[OF S B I pc])
  have p: "0 < ?p" "?p < 2 ^ 48"
    using reference_raw_bounds[OF S(1) B(1) I(1), of "nat h"] S(2) by auto
  consider "d = 1" | "d = 2" | "d = 3" | "d = 4" using d by blast
  then show ?thesis
  proof cases
    case 1
    then show ?thesis
      by (simp add: calculatePoints_def raw reference_points_def difficulty_bonus_def)
  next
    case 2
    have "calculatePoints pc h (Some d) = Math_ceil (dmul (of_int ?p) (dadd 1 (lit (2/10))))"
      unfolding calculatePoints_def Let_def raw 2 by (simp add: bonusFactor_table)
    also have "\<dots> = of_int \<lceil>of_int ?p * (6/5::rat)\<rceil>" by (rule bonus2_exact[OF p])
    finally show ?thesis by (simp add: reference_points_def difficulty_bonus_def 2)
  next
    case 3
    have "calculatePoints pc h (Some d) = Math_ceil (dmul (of_int ?p) (dadd 1 (lit (5/10))))"
      unfolding calculatePoints_def Let_def raw 3 by (simp add: bonusFactor_table)
    also have "\<dots> = of_int \<lceil>of_int ?p * (3/2::rat)\<rceil>" by (rule bonus3_exact[OF p])
    finally show ?thesis by (simp add: reference_points_def difficulty_bonus_def 3)
  next
    case 4
    have "calculatePoints pc h (Some d) = Math_ceil (dmul (of_int ?p) (dadd 1 (lit 1)))"
      unfolding calculatePoints_def Let_def raw 4 by (simp add: bonusFactor_table)
    also have "\<dots> = of_int (?p * 2)" by (rule bonus4_exact[OF p])
    finally show ?thesis by (simp add: reference_points_def difficulty_bonus_def 4)
  qed
qed

lemma cumulative_deduction_strict_mono:
  assumes "0 < B" "0 < I" "n < m"
  shows "cumulative_deduction B I n < cumulative_deduction B I m"
  using assms(3)
proof (induction m)
  case 0
  then show ?case by simp
next
  case (Suc m)
  have step: "cumulative_deduction B I m < cumulative_deduction B I (Suc m)"
    using assms(1,2) by (simp add: cumulative_deduction_Suc add_pos_nonneg)
  show ?case
  proof (cases "n = m")
    case True
    then show ?thesis using step by simp
  next
    case False
    then have "n < m" using Suc.prems by simp
    then show ?thesis using Suc.IH step by linarith
  qed
qed

lemma difficulty_bonus_ge1:
  "d = 1 \<or> d = 2 \<or> d = 3 \<or> d = 4 \<Longrightarrow> 1 \<le> difficulty_bonus d"
  by (auto simp: difficulty_bonus_def)

lemma bonus_ceiling_strict_mono:
  fixes p p' :: int and f :: rat
  assumes "1 \<le> f" "p' < p"
  shows "\<lceil>of_int p' * f\<rceil> < \<lceil>of_int p * f\<rceil>"
proof -
  have "(of_int p' :: rat) \<le> of_int p - 1" using assms(2) by (metis of_int_le_iff of_int_diff of_int_1 zle_diff1_eq)
  then have "of_int p' * f \<le> (of_int p - 1) * f" using assms(1) by (intro mult_right_mono) auto
  also have "\<dots> = of_int p * f - f" by (simp add: algebra_simps)
  also have "\<dots> \<le> of_int p * f - 1" using assms(1) by simp
  finally have "of_int p' * f + 1 \<le> of_int p * f" by simp
  moreover have "of_int \<lceil>of_int p' * f\<rceil> < of_int p' * f + 1" by linarith
  moreover have "of_int p * f \<le> of_int \<lceil>of_int p * f\<rceil>" by linarith
  ultimately have "(of_int \<lceil>of_int p' * f\<rceil> :: rat) < of_int \<lceil>of_int p * f\<rceil>" by linarith
  then show ?thesis using of_int_less_iff by blast
qed

section \<open>Properties of the answer comparison\<close>

lemma isSpace_space: "isSpace (CHR '' '')"
  by (simp add: isSpace_def)

lemma squeeze_cons_nonspace: "c \<noteq> CHR '' '' \<Longrightarrow> squeeze_spaces (c # xs) = c # squeeze_spaces xs"
  by (cases xs) simp_all

lemma squeeze_space_run:
  "squeeze_spaces (CHR '' '' # map (\<lambda>c. if isSpace c then CHR '' '' else c) cs)
     = CHR '' '' # squeeze_spaces (map (\<lambda>c. if isSpace c then CHR '' '' else c) (dropWhile isSpace cs))"
proof (induction cs)
  case Nil
  then show ?case by simp
next
  case (Cons d ds)
  show ?case
  proof (cases "isSpace d")
    case True
    then show ?thesis using Cons.IH by simp
  next
    case False
    then have "d \<noteq> CHR '' ''" using isSpace_space by auto
    then show ?thesis using False by simp
  qed
qed

lemma collapse_ws_squeeze:
  "collapse_ws s = squeeze_spaces (map (\<lambda>c. if isSpace c then CHR '' '' else c) s)"
proof (induction s rule: collapse_ws.induct)
  case 1
  then show ?case by simp
next
  case (2 c cs)
  show ?case
  proof (cases "isSpace c")
    case True
    then show ?thesis using 2 squeeze_space_run[of cs] by simp
  next
    case False
    then have "c \<noteq> CHR '' ''" using isSpace_space by auto
    then show ?thesis using False 2 by (simp add: squeeze_cons_nonspace)
  qed
qed

lemma squeeze_spaces_subset: "set (squeeze_spaces xs) \<subseteq> set xs"
  by (induction xs rule: squeeze_spaces.induct) auto

lemma collapse_ws_only_spaces:
  assumes "c \<in> set (collapse_ws s)" shows "isSpace c \<longleftrightarrow> c = CHR '' ''"
proof -
  have "c \<in> set (map (\<lambda>c. if isSpace c then CHR '' '' else c) s)"
    using assms squeeze_spaces_subset unfolding collapse_ws_squeeze by blast
  then show ?thesis using isSpace_space by auto
qed

lemma normalizeAnswer_spec: "normalizeAnswer s = spec_normal_form s"
proof -
  let ?t = "collapse_ws (toLowerCase s)"
  have d1: "dropWhile isSpace ?t = dropWhile (\<lambda>c. c = CHR '' '') ?t"
    by (rule dropWhile_cong) (simp_all add: collapse_ws_only_spaces)
  let ?r = "rev (dropWhile (\<lambda>c. c = CHR '' '') ?t)"
  have "set ?r \<subseteq> set ?t" using set_dropWhileD by fastforce
  then have d2: "dropWhile isSpace ?r = dropWhile (\<lambda>c. c = CHR '' '') ?r"
    by (intro dropWhile_cong) (auto simp: collapse_ws_only_spaces)
  show ?thesis
    unfolding normalizeAnswer_def spec_normal_form_def trim_def Let_def d1 d2
    by (simp add: collapse_ws_squeeze)
qed

section \<open>Properties of the progress commands\<close>

text \<open>A command whose wait is not interleaved with another command, written in one piece.\<close>

lemma judge_hint_unfold:
  "judge_hint games db userId gameId click =
     (case getUser db userId of
        None \<Rightarrow> (NotRegistered, db)
      | Some user \<Rightarrow>
          if \<not> isValidGameId gameId games then (InvalidGameId, db)
          else (case map_of games gameId of
                  None \<Rightarrow> (InvalidGameId, db)
                | Some game \<Rightarrow>
                    (case getProgress db (user_id user) gameId of
                       (userProgress, db1) \<Rightarrow>
                         if (case userProgress of None \<Rightarrow> False | Some p \<Rightarrow> completed p)
                         then (ChallengeAlreadyCompleted, db1)
                         else
                           (let hintsUsed = (case userProgress of None \<Rightarrow> 0 | Some p \<Rightarrow> hints_used p)
                            in if (case hints game of None \<Rightarrow> True
                                   | Some hs \<Rightarrow> hintsUsed \<ge> int (length hs))
                               then (NoMoreHints, db1)
                               else (case click of
                                       Confirm \<Rightarrow>
                                         (case updateHintUsage db1 (user_id user) gameId of
                                            (Inl e, db2) \<Rightarrow> (HintFailed e, db2)
                                          | (Inr updatedHintsUsed, db2) \<Rightarrow>
                                              (HintShown updatedHintsUsed, db2))
                                     | Cancel \<Rightarrow> (HintCancelled, db1)
                                     | NoClick \<Rightarrow> (HintTimedOut, db1))))))"
  by (auto simp: judge_hint_def judge_hint_open_def judge_hint_click_def Let_def
        split: option.splits prod.splits sum.splits button.splits)

lemma judge_submit_unfold:
  "judge_submit pcfg games db userId gameId submission =
     (case getUser db userId of
        None \<Rightarrow> (NotRegistered, db)
      | Some user \<Rightarrow>
          if \<not> isValidGameId gameId games then (InvalidGameId, db)
          else (case map_of games gameId of
                  None \<Rightarrow> (InvalidGameId, db)
                | Some game \<Rightarrow>
                    (case getProgress db (user_id user) gameId of
                       (userProgress, db1) \<Rightarrow>
                         if (case userProgress of None \<Rightarrow> False | Some p \<Rightarrow> completed p)
                         then (ChallengeAlreadyCompleted, db1)
                         else (case submission of
                                 None \<Rightarrow> (NoAnswerSubmitted, db1)
                               | Some userAnswer \<Rightarrow>
                                   (let db2 = snd (recordAttempt db1 (user_id user) gameId);
                                        isCorrect = isCorrectAnswer (Some userAnswer) (Some (answer game))
                                    in if isCorrect then
                                         (let hintsUsed = (case userProgress of None \<Rightarrow> 0
                                                           | Some p \<Rightarrow> hints_used p);
                                              pointsEarned =
                                                calculatePoints (new_PointsCalculator pcfg) hintsUsed
                                                  (difficulty game);
                                              db3 = snd (completeGame db2 (user_id user) gameId pointsEarned)
                                          in (CorrectAnswer pointsEarned, db3))
                                       else (IncorrectAnswer, db2))))))"
  by (auto simp: judge_submit_def judge_submit_open_def judge_submit_modal_def Let_def
        split: option.splits prod.splits sum.splits button.splits)

lemma judge_admin_manage_hints_unfold:
  "judge_admin_manage_hints admins games db adminId targetUserId gameId action click =
     (if \<not> isAdmin adminId admins then (NotAdmin, db)
      else if \<not> isValidGameId gameId games then (InvalidGameId, db)
      else (case getUser db targetUserId of
              None \<Rightarrow> (NotRegistered, db)
            | Some user \<Rightarrow>
                (case getProgress db (user_id user) gameId of
                   (userProgress, db1) \<Rightarrow>
                     if (case userProgress of None \<Rightarrow> False | Some p \<Rightarrow> completed p)
                     then (CannotModifyCompleted, db1)
                     else (case click of
                             Confirm \<Rightarrow>
                               (case adminManageHints db1 (user_id user) gameId action of
                                  (Inl e, db2) \<Rightarrow> (HintManagementFailed e, db2)
                                | (Inr (previousHints, newHints), db2) \<Rightarrow>
                                    (HintsManaged previousHints newHints, db2))
                           | Cancel \<Rightarrow> (HintManagementCancelled, db1)
                           | NoClick \<Rightarrow> (HintManagementTimedOut, db1)))))"
  by (auto simp: judge_admin_manage_hints_def judge_admin_manage_hints_open_def
        judge_admin_manage_hints_click_def Let_def
        split: option.splits prod.splits sum.splits button.splits)

lemma update_progress_same:
  assumes "progress db k = Some row"
  shows "progress (update_progress db k f) k = Some (f row)"
  using assms by (simp add: update_progress_def)

lemma getProgress_keeps:
  assumes "progress db k = Some row"
  shows "progress (snd (getProgress db u g)) k = Some row"
  using assms by (auto simp: getProgress_def Let_def split: option.splits)

lemma getProgress_existing:
  assumes "progress db (u, g) = Some row" "u \<noteq> 0" "g \<noteq> []"
  shows "getProgress db u g = (Some row, db)"
  using assms by (simp add: getProgress_def)

lemma getProgress_result:
  assumes "getProgress db u g = (p, db1)" "progress db (u, g) = Some row"
  shows "p = None \<or> p = Some row"
  using assms by (auto simp: getProgress_def split: if_splits)

lemma update_progress_other:
  assumes "k' \<noteq> k"
  shows "progress (update_progress db k' f) k = progress db k"
  using assms by (auto simp: update_progress_def split: option.splits)

lemma updateHintUsage_keeps:
  assumes "progress db k = Some row" "completed row"
  shows "progress (snd (updateHintUsage db u g)) k = Some row"
proof (cases "(u, g) = k")
  case True
  then show ?thesis using assms
    by (auto simp: updateHintUsage_def getProgress_def split: option.splits)
next
  case False
  obtain p db1 where g: "getProgress db u g = (p, db1)" by (cases "getProgress db u g")
  have k1: "progress db1 k = Some row" using getProgress_keeps[OF assms(1), of u g] g by simp
  show ?thesis using False k1 g assms(1)
    by (auto simp: updateHintUsage_def update_progress_other split: option.splits)
qed

text \<open>The check at the start of a command: a command that starts on a table in which a row
  is completed, and whose wait is not interleaved, leaves that row as it is.\<close>

lemma judge_hint_keeps:
  assumes "progress db k = Some row" "completed row"
  shows "progress (snd (judge_hint games db userId gameId click)) k = Some row"
proof -
  have "progress (snd (judge_hint games db userId gameId click)) k = Some row"
    if u: "getUser db userId = Some user" and v: "isValidGameId gameId games"
      and m: "map_of games gameId = Some game" for user game
  proof -
    obtain p db1 where g: "getProgress db (user_id user) gameId = (p, db1)"
      by (cases "getProgress db (user_id user) gameId")
    have k1: "progress db1 k = Some row"
      using getProgress_keeps[OF assms(1), of "user_id user" gameId] g by simp
    have k2: "progress (snd (updateHintUsage db1 (user_id user) gameId)) k = Some row"
      by (rule updateHintUsage_keeps[OF k1 assms(2)])
    show ?thesis using u v m g k1 k2
      by (auto simp: judge_hint_unfold Let_def split: option.splits button.splits sum.splits prod.splits)
  qed
  then show ?thesis using assms(1)
    by (auto simp: judge_hint_unfold split: option.splits)
qed

lemma judge_submit_keeps:
  assumes "progress db k = Some row" "completed row"
  shows "progress (snd (judge_submit pcfg games db userId gameId submission)) k = Some row"
proof -
  have "progress (snd (judge_submit pcfg games db userId gameId submission)) k = Some row"
    if u: "getUser db userId = Some user" and v: "isValidGameId gameId games"
      and m: "map_of games gameId = Some game" for user game
  proof -
    obtain p db1 where g: "getProgress db (user_id user) gameId = (p, db1)"
      by (cases "getProgress db (user_id user) gameId")
    have k1: "progress db1 k = Some row"
      using getProgress_keeps[OF assms(1), of "user_id user" gameId] g by simp
    show ?thesis
    proof (cases "(user_id user, gameId) = k")
      case True
      show ?thesis
      proof (cases "user_id user = 0")
        case z: True
        then show ?thesis using u v m g k1
          by (auto simp: judge_submit_unfold Let_def recordAttempt_def completeGame_def getProgress_def
                   split: option.splits)
      next
        case nz: False
        have "gameId \<noteq> []" using v by (simp add: isValidGameId_def)
        then have "getProgress db (user_id user) gameId = (Some row, db)"
          using getProgress_existing[of db "user_id user" gameId row] True assms(1) nz by auto
        then show ?thesis using u v m assms
          by (auto simp: judge_submit_unfold)
      qed
    next
      case False
      then show ?thesis using u v m g k1
        by (auto simp: judge_submit_unfold Let_def recordAttempt_def completeGame_def
                       update_progress_other split: option.splits)
    qed
  qed
  then show ?thesis using assms(1)
    by (auto simp: judge_submit_unfold split: option.splits)
qed

lemma judge_admin_manage_hints_keeps:
  assumes "progress db k = Some row" "completed row"
  shows "progress (snd (judge_admin_manage_hints admins games db adminId targetUserId gameId action click)) k
           = Some row"
proof -
  have "progress (snd (judge_admin_manage_hints admins games db adminId targetUserId gameId action click)) k
           = Some row"
    if a: "isAdmin adminId admins" and v: "isValidGameId gameId games"
      and u: "getUser db targetUserId = Some user" for user
  proof -
    obtain p db1 where g: "getProgress db (user_id user) gameId = (p, db1)"
      by (cases "getProgress db (user_id user) gameId")
    have k1: "progress db1 k = Some row"
      using getProgress_keeps[OF assms(1), of "user_id user" gameId] g by simp
    have g1: "getProgress db1 (user_id user) gameId = (p', db2) \<Longrightarrow> progress db2 k = Some row" for p' db2
      using getProgress_keeps[OF k1, of "user_id user" gameId] by simp
    show ?thesis
    proof (cases "(user_id user, gameId) = k")
      case True
      show ?thesis
      proof (cases "user_id user = 0")
        case z: True
        then show ?thesis using a u v g k1
          by (auto simp: judge_admin_manage_hints_unfold adminManageHints_def getProgress_def
                   split: option.splits button.splits)
      next
        case nz: False
        have "gameId \<noteq> []" using v by (simp add: isValidGameId_def)
        then have "getProgress db (user_id user) gameId = (Some row, db)"
          using getProgress_existing[of db "user_id user" gameId row] True assms(1) nz by auto
        then show ?thesis using a u v assms
          by (auto simp: judge_admin_manage_hints_unfold)
      qed
    next
      case False
      then show ?thesis using a u v g k1 g1
        by (auto simp: judge_admin_manage_hints_unfold adminManageHints_def Let_def
                       update_progress_other split: option.splits button.splits prod.splits)
    qed
  qed
  then show ?thesis using assms(1)
    by (auto simp: judge_admin_manage_hints_unfold split: option.splits)
qed

lemma judge_admin_reset_keeps_or_deletes:
  assumes "progress db k = Some row"
  shows "progress (snd (judge_admin_reset admins games db adminId targetUserId gameId click)) k
           \<in> {Some row, None}"
  using assms
  by (auto simp: judge_admin_reset_def resetUserProgress_def split: option.splits button.splits)

text \<open>The parts after the wait. \<^verbatim>\<open>updateHintUsage\<close> reads the row again, so a click on the
  hint dialog leaves a completed row alone whenever it arrives.\<close>

lemma updateHintUsage_completed:
  assumes "progress db (uid, gid) = Some row" "completed row" "uid \<noteq> 0" "gid \<noteq> []"
  shows "updateHintUsage db uid gid = (Inl AlreadyCompleted, db)"
  using assms getProgress_existing[OF assms(1,3,4)] by (simp add: updateHintUsage_def)

lemma judge_hint_click_keeps:
  assumes "progress db k = Some row" "completed row"
  shows "progress (snd (judge_hint_click db user gameId click)) k = Some row"
  using assms updateHintUsage_keeps[OF assms, of "user_id user" gameId]
  by (auto simp: judge_hint_click_def split: button.splits prod.splits sum.splits)

text \<open>\<^verbatim>\<open>recordAttempt\<close> and \<^verbatim>\<open>adminManageHints\<close> do not look at \<^verbatim>\<open>completed\<close>: a submitted
  form counts an attempt on the row it finds, and a confirmed dialog sets its hints, whatever
  the row has become during the wait.\<close>

lemma judge_submit_modal_counts_attempt:
  assumes "progress db (user_id (submit_user session), submit_gameId session) = Some row"
    and "user_id (submit_user session) \<noteq> 0" and "submit_gameId session \<noteq> []"
  shows "\<exists>row'. progress (snd (judge_submit_modal pcfg session db (Some userAnswer)))
                  (user_id (submit_user session), submit_gameId session) = Some row'
           \<and> attempts row' = attempts row + 1 \<and> hints_used row' = hints_used row"
  using assms
  by (auto simp: judge_submit_modal_def recordAttempt_def completeGame_def update_progress_def Let_def)

lemma judge_admin_manage_hints_click_sets_hints:
  assumes "progress db (user_id user, gameId) = Some row"
    and "user_id user \<noteq> 0" and "gameId \<noteq> []"
  shows "progress (snd (judge_admin_manage_hints_click db user gameId 0 Confirm)) (user_id user, gameId)
           = Some (row\<lparr>hints_used := 0\<rparr>)"
  using assms
  by (simp add: judge_admin_manage_hints_click_def adminManageHints_def getProgress_def
        update_progress_def)

text \<open>The example player: both commands pass their checks on the open row and leave the
  table as it is, and an answer form submitted with the right answer turns the open table
  into the completed one.\<close>

lemma example_answer_form_opened:
  "judge_submit_open example_index example_db_open ''42'' ''quiz''
     = (Inr example_submit_session, example_db_open)"
  by (simp add: judge_submit_open_def getUser_def example_db_open_def example_user_def
        isValidGameId_def example_index_def getProgress_def example_submit_session_def
        example_open_row_def)

lemma example_admin_dialog_opened:
  "judge_admin_manage_hints_open [''7''] example_index example_db_open ''7'' ''42'' ''quiz''
     = (Inr example_user, example_db_open)"
  by (simp add: judge_admin_manage_hints_open_def isAdmin_def getUser_def example_db_open_def
        example_user_def isValidGameId_def example_index_def getProgress_def example_open_row_def)

lemma example_first_form_completes_row:
  "judge_submit_modal default_points_config example_submit_session example_db_open
     (Some '' Caesar '') = (CorrectAnswer 90, example_db_completed)"
proof -
  have g: "answer (cleanGameData example_game) = ''caesar''"
    "difficulty (cleanGameData example_game) = Some 2"
    by code_simp+
  have c: "isCorrectAnswer (Some '' Caesar '') (Some ''caesar'')" by code_simp
  have p: "calculatePoints (new_PointsCalculator default_points_config) 2 (Some 2) = 90"
    by code_simp
  show ?thesis
    unfolding judge_submit_modal_def
    by (simp add: g c p example_submit_session_def example_user_def example_open_row_def
          example_db_open_def example_db_completed_def example_completed_row_def
          recordAttempt_def completeGame_def update_progress_def Let_def)
qed

section \<open>Properties of the games store and of the index rebuilds\<close>

lemma map_of_writeGameFile:
  "map_of (games_dir (writeGameFile st gameId g)) gameId = Some g"
  by (simp add: writeGameFile_def update_conv')

lemma map_of_writeGameFile_other:
  "other \<noteq> gameId \<Longrightarrow> map_of (games_dir (writeGameFile st gameId g)) other = map_of (games_dir st) other"
  by (simp add: writeGameFile_def update_conv')

lemma games_yaml_writeGameFile: "games_yaml (writeGameFile st gameId g) = games_yaml st"
  by (simp add: writeGameFile_def)

lemma games_dir_reloadGamesConfig: "games_dir (reloadGamesConfig games st) = games_dir st"
  by (simp add: reloadGamesConfig_def Let_def)

lemma games_dir_global_reloadGamesConfig: "games_dir (global_reloadGamesConfig st) = games_dir st"
  by (simp add: global_reloadGamesConfig_def Let_def)

text \<open>A loop of conditional assignments into an object: the keys of the result.\<close>

lemma dom_fold_update:
  "dom (map_of (fold (\<lambda>(k, v) merged. if P k v then AList.update k (F v) merged else merged) xs m0))
     = dom (map_of m0) \<union> {k. \<exists>v. (k, v) \<in> set xs \<and> P k v}"
proof (induction xs arbitrary: m0)
  case Nil
  then show ?case by simp
next
  case (Cons x xs)
  obtain k v where x: "x = (k, v)" by (cases x)
  show ?case
    unfolding x using Cons.IH by (auto simp: update_conv' dom_def)
qed

lemma isValidGameId_dom: "isValidGameId gameId games \<longleftrightarrow> gameId \<noteq> [] \<and> gameId \<in> dom (map_of games)"
  by (auto simp: isValidGameId_def)

lemma index_after_global_reload:
  "isValidGameId gameId (games_yaml (global_reloadGamesConfig st))
     \<longleftrightarrow> gameId \<noteq> [] \<and> (\<exists>g. (gameId, g) \<in> set (games_dir st) \<and> truthy (approved g))"
  unfolding isValidGameId_dom global_reloadGamesConfig_def Let_def
  by (simp add: dom_fold_update[where P = "\<lambda>k g. truthy (approved g)" and F = cleanGameData])

lemma dom_fold_update_filter:
  "dom (map_of (fold (\<lambda>(k, v) merged. AList.update k (F v) merged) (filter Q xs) m0))
     = dom (map_of m0) \<union> {k. \<exists>v. (k, v) \<in> set xs \<and> Q (k, v)}"
proof (induction xs arbitrary: m0)
  case Nil
  then show ?case by simp
next
  case (Cons x xs)
  obtain k v where x: "x = (k, v)" by (cases x)
  show ?case
    unfolding x using Cons.IH by (auto simp: update_conv' dom_def)
qed

lemma index_after_reload:
  "isValidGameId gameId (games_yaml (reloadGamesConfig games st))
     \<longleftrightarrow> gameId \<noteq> [] \<and>
         ((\<exists>e. (gameId, e) \<in> set (games_yaml st) \<and> \<not> truthy_str (owner_id e))
          \<or> (\<exists>g. (gameId, g) \<in> set games \<and> truthy (approved g) \<and> \<not> truthy (disabled g)
                    \<and> \<not> truthy (rejected g)))"
proof -
  have "dom (map_of (games_yaml (reloadGamesConfig games st)))
      = {k. \<exists>e. (k, e) \<in> set (games_yaml st) \<and> \<not> truthy_str (owner_id e)}
        \<union> {k. \<exists>g. (k, g) \<in> set games \<and> truthy (approved g) \<and> \<not> truthy (disabled g)
                    \<and> \<not> truthy (rejected g)}"
    unfolding reloadGamesConfig_def Let_def
    by (simp add: dom_fold_update_filter
          dom_fold_update[where P = "\<lambda>k e. \<not> truthy_str (owner_id e)" and F = "\<lambda>e. e"])
  then show ?thesis unfolding isValidGameId_dom by auto
qed

lemma sanitize_flags [simp]:
  "approved (sanitizeGameData g) = approved g"
  "rejected (sanitizeGameData g) = rejected g"
  "disabled (sanitizeGameData g) = disabled g"
  "pending_review (sanitizeGameData g) = pending_review g"
  by (simp_all add: sanitizeGameData_def)

lemma in_getAllGames_after_write:
  "(gameId, sanitizeGameData g) \<in> set (maker_manage_getAllGames (writeGameFile st gameId g))"
proof -
  have "map_of (games_dir (writeGameFile st gameId g)) gameId = Some g" by (rule map_of_writeGameFile)
  then have "(gameId, g) \<in> set (games_dir (writeGameFile st gameId g))" by (rule map_of_SomeD)
  then show ?thesis by (force simp: maker_manage_getAllGames_def)
qed

lemma written_game_survives_reload:
  "map_of (games_dir (maker_manage_reloadGamesConfig (writeGameFile st gameId g))) gameId = Some g"
  by (simp add: maker_manage_reloadGamesConfig_def games_dir_reloadGamesConfig map_of_writeGameFile)

lemma other_game_survives_write_and_reload:
  "other \<noteq> gameId \<Longrightarrow>
     map_of (games_dir (maker_manage_reloadGamesConfig (writeGameFile st gameId g))) other
       = map_of (games_dir st) other"
  by (simp add: maker_manage_reloadGamesConfig_def games_dir_reloadGamesConfig map_of_writeGameFile_other)

lemma index_after_write_and_reload:
  assumes "gameId \<noteq> []" "truthy (approved g)" "\<not> truthy (disabled g)" "\<not> truthy (rejected g)"
  shows "isValidGameId gameId (games_yaml (maker_manage_reloadGamesConfig (writeGameFile st gameId g)))"
proof -
  have "(gameId, sanitizeGameData g) \<in> set (maker_manage_getAllGames (writeGameFile st gameId g))"
    by (rule in_getAllGames_after_write)
  then show ?thesis
    unfolding maker_manage_reloadGamesConfig_def index_after_reload
    using assms by auto
qed

lemma handleApproveGame_confirm:
  assumes "map_of (games_dir st) gameId = Some g" "\<not> truthy (approved g)" "\<not> truthy (disabled g)"
  shows "handleApproveGame st gameId uid utag today Confirm
           = (GameApproved,
              maker_manage_reloadGamesConfig
                (writeGameFile st gameId (approve_updatedGame (sanitizeGameData g) uid utag today)))"
  using assms by (simp add: handleApproveGame_def maker_manage_getGameById_def)

lemma handleApproveGame_refused:
  assumes "map_of (games_dir st) gameId = Some g" "truthy (approved g) \<or> truthy (disabled g)"
  shows "handleApproveGame st gameId uid utag today click
           = (if truthy (approved g) then AlreadyApproved else CurrentlyDisabled, st)"
  using assms by (auto simp: handleApproveGame_def maker_manage_getGameById_def)

lemma handleRejectGame_confirm:
  assumes "map_of (games_dir st) gameId = Some g"
  shows "handleRejectGame st gameId reason uid utag today Confirm
           = (FeedbackSent,
              maker_manage_reloadGamesConfig
                (writeGameFile st gameId (reject_updatedGame (sanitizeGameData g) reason uid utag today)))"
  using assms by (simp add: handleRejectGame_def maker_manage_getGameById_def)

lemma handleDisableGame_submit:
  assumes "map_of (games_dir st) gameId = Some g" "\<not> truthy (disabled g)"
  shows "handleDisableGame st gameId utag today click (Some reasonText)
           = (GameDisabled,
              maker_manage_reloadGamesConfig
                (writeGameFile st gameId
                   (disable_updatedGame (sanitizeGameData g) (trim reasonText) utag today)))"
  using assms by (simp add: handleDisableGame_def maker_manage_getGameById_def)

lemma handleDisableGame_reenable:
  assumes "map_of (games_dir st) gameId = Some g" "truthy (disabled g)"
  shows "handleDisableGame st gameId utag today Confirm modal
           = (GameReenabled,
              maker_manage_reloadGamesConfig
                (writeGameFile st gameId (enable_updatedGame (sanitizeGameData g))))"
  using assms by (simp add: handleDisableGame_def maker_manage_getGameById_def)

lemma approve_updatedGame_fields:
  "approved (approve_updatedGame g uid utag today) = Some True"
  "approval_date (approve_updatedGame g uid utag today) = Some today"
  "approver_id (approve_updatedGame g uid utag today) = Some uid"
  "approver_name (approve_updatedGame g uid utag today) = Some utag"
  "\<not> truthy (rejected (approve_updatedGame g uid utag today))"
  "\<not> truthy (pending_review (approve_updatedGame g uid utag today))"
  "\<not> truthy (disabled (approve_updatedGame g uid utag today))"
  "truthy (rejected g) \<Longrightarrow> rejected (approve_updatedGame g uid utag today) = None
      \<and> rejection_reason (approve_updatedGame g uid utag today) = None"
  "truthy (pending_review g) \<Longrightarrow> pending_review (approve_updatedGame g uid utag today) = None
      \<and> edit_reason (approve_updatedGame g uid utag today) = None"
  by (auto simp: approve_updatedGame_def Let_def truthy_def)

lemma reject_updatedGame_fields:
  "rejected (reject_updatedGame g reason uid utag today) = Some True"
  "rejection_date (reject_updatedGame g reason uid utag today) = Some today"
  "rejection_reason (reject_updatedGame g reason uid utag today) = Some reason"
  "rejector_id (reject_updatedGame g reason uid utag today) = Some uid"
  "rejector_name (reject_updatedGame g reason uid utag today) = Some utag"
  "\<not> truthy (approved (reject_updatedGame g reason uid utag today))"
  "\<not> truthy (pending_review (reject_updatedGame g reason uid utag today))"
  "disabled (reject_updatedGame g reason uid utag today) = disabled g"
  "truthy (approved g) \<Longrightarrow> approved (reject_updatedGame g reason uid utag today) = None
      \<and> approval_date (reject_updatedGame g reason uid utag today) = None"
  by (auto simp: reject_updatedGame_def Let_def truthy_def)

lemma disable_updatedGame_fields:
  "disabled (disable_updatedGame g reason utag today) = Some True"
  "disable_reason (disable_updatedGame g reason utag today) = Some reason"
  "disable_date (disable_updatedGame g reason utag today) = Some today"
  "disabled_by (disable_updatedGame g reason utag today) = Some utag"
  "approved (disable_updatedGame g reason utag today) = approved g"
  "approval_date (disable_updatedGame g reason utag today) = approval_date g"
  "approver_id (disable_updatedGame g reason utag today) = approver_id g"
  "approver_name (disable_updatedGame g reason utag today) = approver_name g"
  "rejected (disable_updatedGame g reason utag today) = rejected g"
  "pending_review (disable_updatedGame g reason utag today) = pending_review g"
  by (simp_all add: disable_updatedGame_def)

lemma enable_updatedGame_fields:
  "disabled (enable_updatedGame g) = None"
  "disable_reason (enable_updatedGame g) = None"
  "disable_date (enable_updatedGame g) = None"
  "approved (enable_updatedGame g) = approved g"
  "approval_date (enable_updatedGame g) = approval_date g"
  "approver_id (enable_updatedGame g) = approver_id g"
  "approver_name (enable_updatedGame g) = approver_name g"
  "rejected (enable_updatedGame g) = rejected g"
  "pending_review (enable_updatedGame g) = pending_review g"
  by (simp_all add: enable_updatedGame_def)

lemma sanitize_metadata [simp]:
  "approval_date (sanitizeGameData g) = approval_date g"
  "approver_id (sanitizeGameData g) = approver_id g"
  "approver_name (sanitizeGameData g) = approver_name g"
  by (simp_all add: sanitizeGameData_def)

lemma written_game_survives_maker_reload:
  "map_of (games_dir (maker_reloadGamesConfig (writeGameFile st gameId g))) gameId = Some g"
  by (simp add: maker_reloadGamesConfig_def games_dir_reloadGamesConfig map_of_writeGameFile)

lemma handleGameEdit_accepted:
  assumes "map_of (games_dir st) gameId = Some g"
    and "owner_id g = Some uid \<or> isAdmin uid admins"
    and "length (trim (game_name form)) \<le> 100" "length (trim (game_description form)) \<le> 1000"
    and "length (trim (game_answer form)) \<le> 100" "length (trim (game_hints form)) \<le> 1500"
    and "game_difficulty form = Some d" "1 \<le> d" "d \<le> 4"
  shows "handleGameEdit st admins uid gameId (Some form) today
           = ((if edit_majorChange g (trim (game_answer form)) d
                     (parse_hints (trim (game_hints form)))
               then ApprovalResetWarning else ChallengeUpdated),
              maker_reloadGamesConfig
                (writeGameFile st gameId
                   (edit_updatedGame g (trim (game_name form)) (trim (game_description form))
                      (trim (game_answer form)) d (parse_hints (trim (game_hints form))) today)))"
  using assms by (auto simp: handleGameEdit_def maker_getGameById_def Let_def)

lemma edit_updatedGame_major:
  assumes "truthy (approved g)"
    and "answer g \<noteq> a \<or> difficulty g \<noteq> Some d \<or> hints g \<noteq> Some hs"
  shows "approved (edit_updatedGame g n de a d hs today) = Some False"
    "pending_review (edit_updatedGame g n de a d hs today) = Some True"
    "edit_reason (edit_updatedGame g n de a d hs today) = Some ''Major changes require admin review''"
    "disabled (edit_updatedGame g n de a d hs today) = disabled g"
    "rejected (edit_updatedGame g n de a d hs today) = rejected g"
  using assms by (auto simp: edit_updatedGame_def Let_def)

lemma edit_updatedGame_minor:
  assumes "answer g = a" "difficulty g = Some d" "hints g = Some hs"
  shows "approved (edit_updatedGame g n de a d hs today) = approved g"
    "pending_review (edit_updatedGame g n de a d hs today) = pending_review g"
    "disabled (edit_updatedGame g n de a d hs today) = disabled g"
    "rejected (edit_updatedGame g n de a d hs today) = rejected g"
  using assms by (auto simp: edit_updatedGame_def Let_def)

lemma edit_updatedGame_edited:
  "name (edit_updatedGame g n de a d hs today) = n"
  "description (edit_updatedGame g n de a d hs today) = de"
  "answer (edit_updatedGame g n de a d hs today) = a"
  "difficulty (edit_updatedGame g n de a d hs today) = Some d"
  "hints (edit_updatedGame g n de a d hs today) = Some hs"
  "last_modified (edit_updatedGame g n de a d hs today) = Some today"
  by (simp_all add: edit_updatedGame_def Let_def)

lemma game_state_Approved_iff:
  "game_state g = Approved \<longleftrightarrow> truthy (approved g) \<and> \<not> truthy (disabled g) \<and> \<not> truthy (rejected g)"
  by (simp add: game_state_def)

section \<open>The claims about the points calculator\<close>

text \<open>
  Auxiliary evaluation: in binary64 arithmetic \<^verbatim>\<open>7 * 0.1\<close> is \<open>0.7000000000000001\<close>, one unit
  in the last place above the binary64 value nearest to \<open>0.7\<close>, so \<^verbatim>\<open>1 + 7 * 0.1\<close> is
  \<open>1.7000000000000002\<close> and \<^verbatim>\<open>100 * (1 + 7 * 0.1)\<close> is \<open>170.00000000000003\<close>.
\<close>

lemma fallback_factor_difficulty_8:
  "dmul 7 (lit (1/10)) = 6305039478318695 / 9007199254740992"
  "lit (7/10) = 6305039478318694 / 9007199254740992"
  "dadd 1 (dmul 7 (lit (1/10))) = 1914029841632461 / 1125899906842624"
  "dmul 100 (dadd 1 (dmul 7 (lit (1/10)))) = 5981343255101441 / 35184372088832"
  unfolding lit_def dadd_def dmul_def by code_simp+

text \<open>
  The scenario of the specification: starting points 100, base penalty 10, increase 5,
  difficulty 1 and two hints give 75 points.
\<close>

lemma calculatePoints_scenario_75:
  "calculatePoints (new_PointsCalculator \<lparr>starting_points = Some 100,
      hint_base_penalty = Some 10, hint_penalty_increase = Some 5\<rparr>) 2 (Some 1) = 75"
  by code_simp

text \<open>
  Claim C1 says that \<^verbatim>\<open>calculatePoints\<close> equals the reference formula for every number of
  hints and every difficulty, where a difficulty above 4 multiplies by
  \<open>1 + (difficulty - 1) * 0.1\<close> and the product is rounded up. At difficulty 8 with no hint
  and the constants 100/10/5 the formula gives \<open>ceil (100 * 1.7) = 170\<close>, and the code
  returns 171: the factor it computes is \<open>1.7000000000000002\<close>, the product is just above
  170 and \<^verbatim>\<open>Math.ceil\<close> moves it to the next integer.
\<close>

theorem calculatePoints_difficulty_8_is_171:
  "calculatePoints (new_PointsCalculator \<lparr>starting_points = Some 100,
      hint_base_penalty = Some 10, hint_penalty_increase = Some 5\<rparr>) 0 (Some 8) = 171
   \<and> reference_points 100 10 5 0 8 = 170"
  by code_simp

text \<open>
  Claim C7: for integer constants (below \<open>2^48\<close>), every number of hints \<open>h\<close> and every
  difficulty in 1..4, the result of \<^verbatim>\<open>calculatePoints\<close> is a non-negative integer; the value
  before the bonus is at least \<open>ceil (starting_points * 0.1)\<close>; while that value is above the
  floor, any larger number of hints gives strictly fewer points; and once it equals the
  floor, every larger number of hints gives the same points.
\<close>

theorem calculatePoints_decreasing_until_floor:
  assumes S: "0 < S" "S < 2 ^ 48" and B: "0 < B" "B < 2 ^ 48" and I: "0 < I" "I < 2 ^ 48"
    and d: "d = 1 \<or> d = 2 \<or> d = 3 \<or> d = 4"
    and hh: "h < h'"
    and pc: "pc = \<lparr>startingPoints = of_int S, hintBasePenalty = of_int B,
                   hintPenaltyIncrease = of_int I\<rparr>"
  shows "(\<exists>n::int. 0 \<le> n \<and> calculatePoints pc (int h) (Some d) = of_int n)
       \<and> of_int \<lceil>of_int S * (1/10 :: rat)\<rceil> \<le> points_before_bonus pc (int h)
       \<and> (of_int \<lceil>of_int S * (1/10 :: rat)\<rceil> < points_before_bonus pc (int h) \<longrightarrow>
            calculatePoints pc (int h') (Some d) < calculatePoints pc (int h) (Some d))
       \<and> (points_before_bonus pc (int h) = of_int \<lceil>of_int S * (1/10 :: rat)\<rceil> \<longrightarrow>
            calculatePoints pc (int h') (Some d) = calculatePoints pc (int h) (Some d))"
proof -
  let ?m = "\<lceil>of_int S * (1/10 :: rat)\<rceil>"
  let ?f = "difficulty_bonus d"
  have c: "calculatePoints pc (int k) (Some d) = of_int (reference_points S B I k d)" for k
    using calculatePoints_exact[OF S B I pc d, of "int k"] by simp
  have r: "points_before_bonus pc (int k) = of_int (reference_raw S B I k)" for k
    using points_before_bonus_exact[OF S B I pc, of "int k"] by simp
  have f1: "1 \<le> ?f" by (rule difficulty_bonus_ge1[OF d])
  have raw1: "1 \<le> reference_raw S B I h" by (rule reference_raw_bounds(1)[OF S(1) B(1) I(1)])
  have "0 \<le> of_int (reference_raw S B I h) * ?f" using raw1 f1 by simp
  then have nonneg: "0 \<le> reference_points S B I h d"
    unfolding reference_points_def by (simp add: le_ceiling_iff)
  have ded: "cumulative_deduction B I h < cumulative_deduction B I h'"
    by (rule cumulative_deduction_strict_mono[OF B(1) I(1) hh])
  have floor_le: "?m \<le> reference_raw S B I h" unfolding reference_raw_def by (rule max.cobounded2)
  have dec: "reference_points S B I h' d < reference_points S B I h d"
    if "?m < reference_raw S B I h"
  proof -
    have "reference_raw S B I h' < reference_raw S B I h"
      using that ded by (auto simp: reference_raw_def max_def split: if_splits)
    then show ?thesis unfolding reference_points_def by (rule bonus_ceiling_strict_mono[OF f1])
  qed
  have const: "reference_points S B I h' d = reference_points S B I h d"
    if "reference_raw S B I h = ?m"
  proof -
    have "reference_raw S B I h' = reference_raw S B I h"
      using that ded by (auto simp: reference_raw_def max_def split: if_splits)
    then show ?thesis by (simp add: reference_points_def)
  qed
  show ?thesis
    using nonneg floor_le dec const by (auto simp only: c r of_int_le_iff of_int_less_iff of_int_eq_iff)
qed

text \<open>The hypotheses of the theorem hold at the constants 100/10/5 and difficulty 2: four hints
  leave 30 points before the bonus (above the floor 10), five hints reach the floor.\<close>

theorem calculatePoints_decreasing_until_floor_witness:
  "calculatePoints \<lparr>startingPoints = 100, hintBasePenalty = 10, hintPenaltyIncrease = 5\<rparr> 5 (Some 2)
     < calculatePoints \<lparr>startingPoints = 100, hintBasePenalty = 10, hintPenaltyIncrease = 5\<rparr> 4 (Some 2)
   \<and> calculatePoints \<lparr>startingPoints = 100, hintBasePenalty = 10, hintPenaltyIncrease = 5\<rparr> 7 (Some 2)
     = calculatePoints \<lparr>startingPoints = 100, hintBasePenalty = 10, hintPenaltyIncrease = 5\<rparr> 5 (Some 2)"
proof -
  let ?pc = "\<lparr>startingPoints = 100, hintBasePenalty = 10, hintPenaltyIncrease = 5\<rparr>"
  have pc: "?pc = \<lparr>startingPoints = of_int 100, hintBasePenalty = of_int 10,
                   hintPenaltyIncrease = of_int 5\<rparr>" by simp
  have a4: "of_int \<lceil>of_int 100 * (1/10 :: rat)\<rceil> < points_before_bonus ?pc (int 4)"
    by code_simp
  have a5: "points_before_bonus ?pc (int 5) = of_int \<lceil>of_int 100 * (1/10 :: rat)\<rceil>"
    by code_simp
  have "calculatePoints ?pc (int 5) (Some 2) < calculatePoints ?pc (int 4) (Some 2)"
    using calculatePoints_decreasing_until_floor[of 100 10 5 2 4 5 ?pc, OF _ _ _ _ _ _ _ _ pc] a4
    by simp
  moreover have "calculatePoints ?pc (int 7) (Some 2) = calculatePoints ?pc (int 5) (Some 2)"
    using calculatePoints_decreasing_until_floor[of 100 10 5 2 5 7 ?pc, OF _ _ _ _ _ _ _ _ pc] a5
    by simp
  ultimately show ?thesis by simp
qed

section \<open>The claim about answer comparison\<close>

text \<open>
  Claim C10: \<^verbatim>\<open>isCorrectAnswer\<close> is false whenever either argument is missing or empty, in
  particular when both are empty strings, so an empty stored answer is matched by no
  submission; on non-empty arguments it is true exactly when the two strings have the same
  normal form: lower-cased, every run of whitespace collapsed to one space, and trimmed.
\<close>

theorem isCorrectAnswer_characterisation:
  "isCorrectAnswer None c = False
   \<and> isCorrectAnswer u None = False
   \<and> isCorrectAnswer (Some []) c = False
   \<and> isCorrectAnswer u (Some []) = False
   \<and> isCorrectAnswer (Some []) (Some []) = False
   \<and> isCorrectAnswer (Some a) (Some b)
       = (a \<noteq> [] \<and> b \<noteq> [] \<and> spec_normal_form a = spec_normal_form b)"
  by (auto simp: isCorrectAnswer_def normalizeAnswer_spec split: option.splits)

section \<open>The claims about progress rows\<close>

text \<open>
  Claim C8 says that a request to consume a hint on a completed row fails with
  \<open>AlreadyCompleted\<close>, and that no operation, answer submission and admin hint management
  included, changes \<^verbatim>\<open>hints_used\<close> or \<^verbatim>\<open>attempts\<close> of a completed row. The hint part holds:
  \<^verbatim>\<open>updateHintUsage\<close> reads the row again when the click arrives. The other part fails,
  because \<^verbatim>\<open>judge-submit\<close> and \<^verbatim>\<open>manage-hints\<close> check \<^verbatim>\<open>completed\<close> only before they wait.
  Player 42 has the open row of \<open>quiz\<close> (3 attempts, 2 hints); two answer forms and an admin
  dialog are opened on it. The first form, with the right answer, completes the row with 4
  attempts and 90 points. The second form, with a wrong answer, then raises \<^verbatim>\<open>attempts\<close> of
  the completed row to 5, and the confirmed dialog sets its \<^verbatim>\<open>hints_used\<close> from 2 to 0; a
  click on a hint dialog is refused with \<open>AlreadyCompleted\<close>.
\<close>

theorem stale_form_and_dialog_change_completed_row:
  "judge_submit_open example_index example_db_open ''42'' ''quiz''
     = (Inr example_submit_session, example_db_open)
   \<and> judge_admin_manage_hints_open [''7''] example_index example_db_open ''7'' ''42'' ''quiz''
     = (Inr example_user, example_db_open)
   \<and> judge_submit_modal default_points_config example_submit_session example_db_open
        (Some '' Caesar '') = (CorrectAnswer 90, example_db_completed)
   \<and> progress example_db_completed (1, ''quiz'') = Some example_completed_row
   \<and> completed example_completed_row
   \<and> attempts example_completed_row = 4
   \<and> hints_used example_completed_row = 2
   \<and> fst (judge_submit_modal default_points_config example_submit_session example_db_completed
            (Some ''wrong'')) = IncorrectAnswer
   \<and> progress (snd (judge_submit_modal default_points_config example_submit_session
                       example_db_completed (Some ''wrong''))) (1, ''quiz'')
        = Some (example_completed_row\<lparr>attempts := 5\<rparr>)
   \<and> fst (judge_admin_manage_hints_click example_db_completed example_user ''quiz'' 0 Confirm)
        = HintsManaged 2 0
   \<and> progress (snd (judge_admin_manage_hints_click example_db_completed example_user ''quiz'' 0
                       Confirm)) (1, ''quiz'')
        = Some (example_completed_row\<lparr>hints_used := 0\<rparr>)
   \<and> fst (judge_hint_click example_db_completed example_user ''quiz'' Confirm)
        = HintFailed AlreadyCompleted
   \<and> progress (snd (judge_hint_click example_db_completed example_user ''quiz'' Confirm))
          (1, ''quiz'') = Some example_completed_row"
  apply (intro conjI)
              apply (rule example_answer_form_opened)
             apply (rule example_admin_dialog_opened)
            apply (rule example_first_form_completes_row)
           apply code_simp+
  done

text \<open>
  Claim C9: when a registered user submits an answer for an existing challenge that the
  user has not completed, the attempts counter of the row grows by exactly one (from 0 when
  the row did not exist), whether the answer is correct or not: \<^verbatim>\<open>recordAttempt\<close> runs
  before \<^verbatim>\<open>isCorrectAnswer\<close>, whose result only selects the reply.
\<close>

theorem submit_records_one_attempt:
  assumes user: "getUser db userId = Some user" "user_id user \<noteq> 0"
    and game: "gameId \<noteq> []" "map_of games gameId = Some game"
    and open_row: "\<forall>row. progress db (user_id user, gameId) = Some row \<longrightarrow> \<not> completed row"
  shows "(\<exists>row'. progress (snd (judge_submit pcfg games db userId gameId (Some userAnswer)))
                  (user_id user, gameId) = Some row'
            \<and> attempts row' = (case progress db (user_id user, gameId) of
                                 None \<Rightarrow> 0 | Some row \<Rightarrow> attempts row) + 1)
       \<and> fst (judge_submit pcfg games db userId gameId (Some userAnswer)) =
           (if isCorrectAnswer (Some userAnswer) (Some (answer game))
            then CorrectAnswer
                   (calculatePoints (new_PointsCalculator pcfg)
                      (case progress db (user_id user, gameId) of
                         None \<Rightarrow> 0 | Some row \<Rightarrow> hints_used row)
                      (difficulty game))
            else IncorrectAnswer)"
proof -
  let ?k = "(user_id user, gameId)"
  have v: "isValidGameId gameId games" using game by (simp add: isValidGameId_def)
  obtain row0 db1 where g: "getProgress db (user_id user) gameId = (Some row0, db1)"
    and r1: "progress db1 ?k = Some row0" and nc: "\<not> completed row0"
    and a0: "attempts row0 = (case progress db ?k of None \<Rightarrow> 0 | Some row \<Rightarrow> attempts row)"
    and h0: "hints_used row0 = (case progress db ?k of None \<Rightarrow> 0 | Some row \<Rightarrow> hints_used row)"
    using user(2) game(1) open_row
    by (cases "progress db ?k") (auto simp: getProgress_def Let_def)
  let ?db2 = "update_progress db1 ?k (\<lambda>r. r\<lparr>attempts := attempts r + 1\<rparr>)"
  have ra: "recordAttempt db1 (user_id user) gameId = (Inr (), ?db2)"
    using user(2) game(1) by (simp add: recordAttempt_def)
  have r2: "progress ?db2 ?k = Some (row0\<lparr>attempts := attempts row0 + 1\<rparr>)"
    by (rule update_progress_same[OF r1])
  have c: "\<exists>row'. progress (snd (completeGame ?db2 (user_id user) gameId pts)) ?k = Some row'
             \<and> attempts row' = attempts row0 + 1" for pts
    using r2 by (auto simp: completeGame_def update_progress_def)
  show ?thesis
    using user(1) v game(2) g nc ra r2 c a0 h0
    by (auto simp: judge_submit_unfold Let_def)
qed

text \<open>The theorem at the open example row (3 attempts, 2 hints): a wrong and a right answer
  both lead to 4 attempts; the right one earns 90 points.\<close>

theorem submit_records_one_attempt_witness:
  "(\<exists>row'. progress (snd (judge_submit default_points_config example_index example_db_open
                              ''42'' ''quiz'' (Some ''wrong''))) (1, ''quiz'') = Some row'
           \<and> attempts row' = 4)
   \<and> fst (judge_submit default_points_config example_index example_db_open ''42'' ''quiz''
            (Some ''wrong'')) = IncorrectAnswer
   \<and> (\<exists>row'. progress (snd (judge_submit default_points_config example_index example_db_open
                              ''42'' ''quiz'' (Some '' Caesar ''))) (1, ''quiz'') = Some row'
           \<and> attempts row' = 4)
   \<and> fst (judge_submit default_points_config example_index example_db_open ''42'' ''quiz''
            (Some '' Caesar '')) = CorrectAnswer 90"
proof -
  have u: "getUser example_db_open ''42'' = Some example_user"
    by (simp add: getUser_def example_db_open_def example_user_def)
  have i: "user_id example_user \<noteq> 0" by (simp add: example_user_def)
  have g: "map_of example_index ''quiz'' = Some (cleanGameData example_game)"
    by (simp add: example_index_def)
  have r: "progress example_db_open (user_id example_user, ''quiz'') = Some example_open_row"
    by (simp add: example_db_open_def example_user_def)
  have o: "\<forall>row. progress example_db_open (user_id example_user, ''quiz'') = Some row
             \<longrightarrow> \<not> completed row"
    by (simp add: r example_open_row_def)
  have w: "\<not> isCorrectAnswer (Some ''wrong'') (Some (answer (cleanGameData example_game)))"
    by code_simp
  have c: "isCorrectAnswer (Some '' Caesar '') (Some (answer (cleanGameData example_game)))"
    by code_simp
  have p: "calculatePoints (new_PointsCalculator default_points_config) 2
             (difficulty (cleanGameData example_game)) = 90"
    by code_simp
  have a: "attempts example_open_row = 3" "hints_used example_open_row = 2"
    by (simp_all add: example_open_row_def)
  have id1: "user_id example_user = 1" by (simp add: example_user_def)
  have r1: "progress example_db_open (1, ''quiz'') = Some example_open_row"
    by (simp add: example_db_open_def)
  show ?thesis
    using submit_records_one_attempt[OF u i _ g o, of "default_points_config" "''wrong''"]
      submit_records_one_attempt[OF u i _ g o, of "default_points_config" "'' Caesar ''"]
    by (simp add: r1 w c p a id1)
qed

section \<open>The claims about the approval workflow\<close>

text \<open>
  Claim C2 says that approving a pending challenge fails when no reward payload is
  configured. The code has no such check: the confirmation dialog only carries a warning.
  The example challenge is pending, has reward type \<open>text\<close> and no reward text, and a
  confirmed approval succeeds and puts it into the index of approved challenges.
\<close>

theorem approve_without_reward_payload_succeeds:
  "game_state example_game = Pending
   \<and> reward_warning example_game
   \<and> fst (handleApproveGame example_store ''quiz'' ''7'' ''admin#7'' ''2025-04-04'' Confirm) = GameApproved
   \<and> isValidGameId ''quiz''
        (games_yaml (snd (handleApproveGame example_store ''quiz'' ''7'' ''admin#7'' ''2025-04-04'' Confirm)))"
  by code_simp

text \<open>
  Claim C2 as amended: a confirmed approval of a challenge that is neither approved nor
  disabled succeeds whether or not a badge class id or a reward text is configured; it
  records the approver's id, tag and the date, leaves the record in state approved, and
  the rebuilt index of approved challenges contains the challenge. In particular
  approving a challenge with a reward text succeeds and makes it visible.
\<close>

theorem approve_has_no_reward_gate:
  assumes "map_of (games_dir st) gameId = Some g" and "gameId \<noteq> []"
    and "\<not> truthy (approved g)" and "\<not> truthy (disabled g)"
  shows "fst (handleApproveGame st gameId uid utag today Confirm) = GameApproved
    \<and> (\<exists>g'. map_of (games_dir (snd (handleApproveGame st gameId uid utag today Confirm))) gameId = Some g'
            \<and> approved g' = Some True \<and> approver_id g' = Some uid \<and> approver_name g' = Some utag
            \<and> approval_date g' = Some today \<and> game_state g' = Approved)
    \<and> isValidGameId gameId (games_yaml (snd (handleApproveGame st gameId uid utag today Confirm)))"
proof -
  let ?u = "approve_updatedGame (sanitizeGameData g) uid utag today"
  have h: "handleApproveGame st gameId uid utag today Confirm
             = (GameApproved, maker_manage_reloadGamesConfig (writeGameFile st gameId ?u))"
    by (rule handleApproveGame_confirm[OF assms(1,3,4)])
  have s: "game_state ?u = Approved"
    using approve_updatedGame_fields(1,5,7)[of "sanitizeGameData g" uid utag today]
    by (simp add: game_state_def truthy_def)
  have i: "isValidGameId gameId (games_yaml (maker_manage_reloadGamesConfig (writeGameFile st gameId ?u)))"
    using approve_updatedGame_fields(1,5,7)[of "sanitizeGameData g" uid utag today]
    by (intro index_after_write_and_reload[OF assms(2)]) (simp_all add: truthy_def)
  show ?thesis
    unfolding h using s i
    by (simp add: written_game_survives_reload approve_updatedGame_fields)
qed

text \<open>The theorem at the example challenge with a reward text configured.\<close>

theorem approve_has_no_reward_gate_witness:
  "fst (handleApproveGame
          \<lparr>games_dir = [(''quiz'', example_game\<lparr>reward_text := Some ''well done''\<rparr>)], games_yaml = []\<rparr>
          ''quiz'' ''7'' ''admin#7'' ''2025-04-04'' Confirm) = GameApproved
   \<and> isValidGameId ''quiz''
       (games_yaml (snd (handleApproveGame
          \<lparr>games_dir = [(''quiz'', example_game\<lparr>reward_text := Some ''well done''\<rparr>)], games_yaml = []\<rparr>
          ''quiz'' ''7'' ''admin#7'' ''2025-04-04'' Confirm)))"
proof -
  let ?g = "example_game\<lparr>reward_text := Some ''well done''\<rparr>"
  let ?st = "\<lparr>games_dir = [(''quiz'', ?g)], games_yaml = []\<rparr>"
  have 1: "map_of (games_dir ?st) ''quiz'' = Some ?g" by simp
  have 2: "''quiz'' \<noteq> []" by simp
  have 3: "\<not> truthy (approved ?g)" by (simp add: example_game_def new_game_def truthy_def)
  have 4: "\<not> truthy (disabled ?g)" by (simp add: example_game_def new_game_def truthy_def)
  show ?thesis
    using approve_has_no_reward_gate[OF 1 2 3 4, of "''7''" "''admin#7''" "''2025-04-04''"] by simp
qed

text \<open>
  Claim C3 says that every transition outside the legal table fails and leaves the record
  unchanged, in particular disabling a rejected challenge and rejecting a disabled one.
  Both succeed: the disable handler only asks whether the challenge is already disabled,
  and the reject handler looks at no flag at all.
\<close>

theorem disable_of_rejected_and_reject_of_disabled_succeed:
  "game_state example_rejected_game = Rejected
   \<and> handleDisableGame \<lparr>games_dir = [(''quiz'', example_rejected_game)], games_yaml = []\<rparr>
        ''quiz'' ''admin#7'' ''2025-04-05'' NoClick (Some ''broken link'')
       = (GameDisabled,
          \<lparr>games_dir = [(''quiz'', disable_updatedGame example_rejected_game ''broken link''
                                      ''admin#7'' ''2025-04-05'')],
           games_yaml = []\<rparr>)
   \<and> disable_updatedGame example_rejected_game ''broken link'' ''admin#7'' ''2025-04-05''
        \<noteq> example_rejected_game
   \<and> game_state example_disabled_game = Disabled
   \<and> fst (handleRejectGame \<lparr>games_dir = [(''quiz'', example_disabled_game)], games_yaml = []\<rparr>
        ''quiz'' ''too easy'' ''7'' ''admin#7'' ''2025-04-06'' Confirm) = FeedbackSent
   \<and> map_of (games_dir (snd (handleRejectGame
          \<lparr>games_dir = [(''quiz'', example_disabled_game)], games_yaml = []\<rparr>
          ''quiz'' ''too easy'' ''7'' ''admin#7'' ''2025-04-06'' Confirm))) ''quiz''
        \<noteq> Some example_disabled_game"
  by code_simp

text \<open>
  Claim C3 as amended: only approving is guarded. Approving a challenge that is already
  approved, or one that is disabled, is refused and leaves the store unchanged. Every
  other confirmed request is carried out: approving a challenge that is neither approved
  nor disabled (pending or rejected) marks it approved; rejecting marks the challenge
  rejected from any state; disabling marks it disabled from any state but disabled; and
  on a disabled challenge the disable command re-enables it.
\<close>

theorem only_approve_is_guarded:
  assumes "map_of (games_dir st) gameId = Some g"
  shows "(truthy (approved g) \<or> truthy (disabled g) \<longrightarrow>
            snd (handleApproveGame st gameId uid utag today click) = st
            \<and> fst (handleApproveGame st gameId uid utag today click)
                = (if truthy (approved g) then AlreadyApproved else CurrentlyDisabled))
    \<and> (\<not> truthy (approved g) \<and> \<not> truthy (disabled g) \<longrightarrow>
            fst (handleApproveGame st gameId uid utag today Confirm) = GameApproved
            \<and> (\<exists>g'. map_of (games_dir (snd (handleApproveGame st gameId uid utag today Confirm))) gameId
                       = Some g' \<and> truthy (approved g')))
    \<and> fst (handleRejectGame st gameId reason uid utag today Confirm) = FeedbackSent
    \<and> (\<exists>g'. map_of (games_dir (snd (handleRejectGame st gameId reason uid utag today Confirm))) gameId
               = Some g' \<and> truthy (rejected g'))
    \<and> (\<not> truthy (disabled g) \<longrightarrow>
            fst (handleDisableGame st gameId utag today click (Some reasonText)) = GameDisabled
            \<and> (\<exists>g'. map_of (games_dir (snd (handleDisableGame st gameId utag today click (Some reasonText))))
                         gameId = Some g' \<and> truthy (disabled g')))
    \<and> (truthy (disabled g) \<longrightarrow>
            fst (handleDisableGame st gameId utag today Confirm modal) = GameReenabled
            \<and> (\<exists>g'. map_of (games_dir (snd (handleDisableGame st gameId utag today Confirm modal)))
                         gameId = Some g' \<and> \<not> truthy (disabled g')))"
proof (intro conjI impI)
  assume a: "truthy (approved g) \<or> truthy (disabled g)"
  show "snd (handleApproveGame st gameId uid utag today click) = st"
    by (simp add: handleApproveGame_refused[OF assms a])
  show "fst (handleApproveGame st gameId uid utag today click)
          = (if truthy (approved g) then AlreadyApproved else CurrentlyDisabled)"
    by (simp add: handleApproveGame_refused[OF assms a])
next
  assume a: "\<not> truthy (approved g) \<and> \<not> truthy (disabled g)"
  then have h: "handleApproveGame st gameId uid utag today Confirm
           = (GameApproved,
              maker_manage_reloadGamesConfig
                (writeGameFile st gameId (approve_updatedGame (sanitizeGameData g) uid utag today)))"
    using handleApproveGame_confirm[OF assms] by simp
  show "fst (handleApproveGame st gameId uid utag today Confirm) = GameApproved"
    by (simp add: h)
  show "\<exists>g'. map_of (games_dir (snd (handleApproveGame st gameId uid utag today Confirm))) gameId
                       = Some g' \<and> truthy (approved g')"
    by (simp add: h written_game_survives_reload approve_updatedGame_fields truthy_def)
next
  show "fst (handleRejectGame st gameId reason uid utag today Confirm) = FeedbackSent"
    by (simp add: handleRejectGame_confirm[OF assms])
  show "\<exists>g'. map_of (games_dir (snd (handleRejectGame st gameId reason uid utag today Confirm))) gameId
               = Some g' \<and> truthy (rejected g')"
    by (simp add: handleRejectGame_confirm[OF assms] written_game_survives_reload
          reject_updatedGame_fields truthy_def)
next
  assume a: "\<not> truthy (disabled g)"
  show "fst (handleDisableGame st gameId utag today click (Some reasonText)) = GameDisabled"
    by (simp add: handleDisableGame_submit[OF assms a])
  show "\<exists>g'. map_of (games_dir (snd (handleDisableGame st gameId utag today click (Some reasonText))))
                         gameId = Some g' \<and> truthy (disabled g')"
    by (simp add: handleDisableGame_submit[OF assms a] written_game_survives_reload
          disable_updatedGame_fields truthy_def)
next
  assume a: "truthy (disabled g)"
  show "fst (handleDisableGame st gameId utag today Confirm modal) = GameReenabled"
    by (simp add: handleDisableGame_reenable[OF assms a])
  show "\<exists>g'. map_of (games_dir (snd (handleDisableGame st gameId utag today Confirm modal)))
                         gameId = Some g' \<and> \<not> truthy (disabled g')"
    by (simp add: handleDisableGame_reenable[OF assms a] written_game_survives_reload
          enable_updatedGame_fields truthy_def)
qed

text \<open>The theorem at the rejected example challenge: it can be disabled, rejected again,
  and approved.\<close>

theorem only_approve_is_guarded_witness:
  "fst (handleDisableGame \<lparr>games_dir = [(''quiz'', example_rejected_game)], games_yaml = []\<rparr>
          ''quiz'' ''admin#7'' ''2025-04-05'' NoClick (Some ''broken link'')) = GameDisabled
   \<and> fst (handleRejectGame \<lparr>games_dir = [(''quiz'', example_rejected_game)], games_yaml = []\<rparr>
          ''quiz'' ''again'' ''7'' ''admin#7'' ''2025-04-05'' Confirm) = FeedbackSent
   \<and> fst (handleApproveGame \<lparr>games_dir = [(''quiz'', example_rejected_game)], games_yaml = []\<rparr>
          ''quiz'' ''7'' ''admin#7'' ''2025-04-05'' Confirm) = GameApproved"
proof -
  let ?st = "\<lparr>games_dir = [(''quiz'', example_rejected_game)], games_yaml = []\<rparr>"
  have 1: "map_of (games_dir ?st) ''quiz'' = Some example_rejected_game" by simp
  have 2: "\<not> truthy (disabled example_rejected_game)" "\<not> truthy (approved example_rejected_game)"
    by code_simp+
  show ?thesis
    using only_approve_is_guarded[OF 1, of "''7''" "''admin#7''" "''2025-04-05''" NoClick "''again''"
            "''broken link''" None] 2
    by blast
qed

text \<open>
  Claim C4 says that a challenge in state disabled or rejected is absent from the index of
  approved challenges after any rebuild, whatever its other flags are. Disabling keeps
  \<^verbatim>\<open>approved: true\<close> in the file, and the rebuild of index.js (\<^verbatim>\<open>global.reloadGamesConfig\<close>,
  which runs in the handler of form submissions) tests \<^verbatim>\<open>approved\<close> alone, where the rebuild
  of maker-manage.js tests \<^verbatim>\<open>approved && !disabled && !rejected\<close>: the approved and then
  disabled example challenge is in the index after that rebuild.
\<close>

theorem global_reloadGamesConfig_lists_disabled_game:
  "game_state example_disabled_game = Disabled
   \<and> approved example_disabled_game = Some True
   \<and> isValidGameId ''quiz''
        (games_yaml (global_reloadGamesConfig
           \<lparr>games_dir = [(''quiz'', example_disabled_game)], games_yaml = []\<rparr>))"
  by code_simp

text \<open>
  The rebuild of maker-manage.js misses the property in another way. It copies every entry
  of the existing games.yaml that has no \<^verbatim>\<open>owner_id\<close>, meaning the manually added
  challenges; but the entries that a rebuild itself writes for maker challenges carry no
  \<^verbatim>\<open>owner_id\<close> either. So an approved challenge stays in the index when it is disabled or
  rejected afterwards.
\<close>

lemma disabled_game_stays_in_index:
  "fst (handleApproveGame example_store ''quiz'' ''7'' ''admin#7'' ''2025-04-04'' Confirm) = GameApproved
   \<and> fst (handleDisableGame
            (snd (handleApproveGame example_store ''quiz'' ''7'' ''admin#7'' ''2025-04-04'' Confirm))
            ''quiz'' ''admin#7'' ''2025-04-05'' NoClick (Some ''broken link'')) = GameDisabled
   \<and> map_of (games_dir (snd (handleDisableGame
            (snd (handleApproveGame example_store ''quiz'' ''7'' ''admin#7'' ''2025-04-04'' Confirm))
            ''quiz'' ''admin#7'' ''2025-04-05'' NoClick (Some ''broken link'')))) ''quiz''
        = Some example_disabled_game
   \<and> isValidGameId ''quiz'' (games_yaml (snd (handleDisableGame
            (snd (handleApproveGame example_store ''quiz'' ''7'' ''admin#7'' ''2025-04-04'' Confirm))
            ''quiz'' ''admin#7'' ''2025-04-05'' NoClick (Some ''broken link''))))"
  by code_simp

lemma rejected_game_stays_in_index:
  "isValidGameId ''quiz'' (games_yaml (snd (handleRejectGame
            (snd (handleApproveGame example_store ''quiz'' ''7'' ''admin#7'' ''2025-04-04'' Confirm))
            ''quiz'' ''too easy'' ''7'' ''admin#7'' ''2025-04-05'' Confirm)))"
  by code_simp

text \<open>
  Claim C5: an accepted edit of a challenge in state approved forces it back to pending
  (\<^verbatim>\<open>approved\<close> becomes false, \<^verbatim>\<open>pending_review\<close> true) when the submitted answer, difficulty
  or hints differ from the stored ones, and leaves it approved when they are all equal to
  the stored ones, whatever the new name and description are. In the first case the form
  is answered with the warning about the new approval, in the second with the update notice.
\<close>

theorem edit_of_approved_game:
  assumes found: "map_of (games_dir st) gameId = Some g"
    and perm: "owner_id g = Some uid \<or> isAdmin uid admins"
    and valid: "length (trim (game_name form)) \<le> 100" "length (trim (game_description form)) \<le> 1000"
      "length (trim (game_answer form)) \<le> 100" "length (trim (game_hints form)) \<le> 1500"
      "game_difficulty form = Some d" "1 \<le> d" "d \<le> 4"
    and state: "game_state g = Approved"
  shows "fst (handleGameEdit st admins uid gameId (Some form) today)
           = (if answer g \<noteq> trim (game_answer form) \<or> difficulty g \<noteq> Some d
                 \<or> hints g \<noteq> Some (parse_hints (trim (game_hints form)))
              then ApprovalResetWarning else ChallengeUpdated)
    \<and> (\<exists>g'. map_of (games_dir (snd (handleGameEdit st admins uid gameId (Some form) today))) gameId
               = Some g'
          \<and> name g' = trim (game_name form) \<and> description g' = trim (game_description form)
          \<and> (answer g \<noteq> trim (game_answer form) \<or> difficulty g \<noteq> Some d
               \<or> hints g \<noteq> Some (parse_hints (trim (game_hints form)))
              \<longrightarrow> approved g' = Some False \<and> pending_review g' = Some True
                  \<and> game_state g' = Pending)
          \<and> (answer g = trim (game_answer form) \<and> difficulty g = Some d
               \<and> hints g = Some (parse_hints (trim (game_hints form)))
              \<longrightarrow> approved g' = approved g \<and> game_state g' = Approved))"
proof -
  let ?a = "trim (game_answer form)" and ?hs = "parse_hints (trim (game_hints form))"
  let ?u = "edit_updatedGame g (trim (game_name form)) (trim (game_description form)) ?a d ?hs today"
  have h: "handleGameEdit st admins uid gameId (Some form) today
           = ((if edit_majorChange g ?a d ?hs then ApprovalResetWarning else ChallengeUpdated),
              maker_reloadGamesConfig (writeGameFile st gameId ?u))"
    by (rule handleGameEdit_accepted[OF found perm valid])
  have s: "truthy (approved g)" "\<not> truthy (disabled g)" "\<not> truthy (rejected g)"
    using state by (simp_all add: game_state_Approved_iff)
  have major: "approved ?u = Some False \<and> pending_review ?u = Some True \<and> game_state ?u = Pending"
    if "answer g \<noteq> ?a \<or> difficulty g \<noteq> Some d \<or> hints g \<noteq> Some ?hs"
    using edit_updatedGame_major[OF s(1) that] s(2,3)
    by (simp add: game_state_def truthy_def)
  have minor: "approved ?u = approved g \<and> game_state ?u = Approved"
    if "answer g = ?a \<and> difficulty g = Some d \<and> hints g = Some ?hs"
    using edit_updatedGame_minor[of g ?a d ?hs] that s
    by (simp add: game_state_def)
  have r: "edit_majorChange g ?a d ?hs
           \<longleftrightarrow> answer g \<noteq> ?a \<or> difficulty g \<noteq> Some d \<or> hints g \<noteq> Some ?hs"
    using s(1) by (simp add: edit_majorChange_def)
  show ?thesis
    unfolding h r using major minor
    by (simp add: written_game_survives_maker_reload edit_updatedGame_edited)
qed

text \<open>The theorem at the approved example challenge: a new answer resets it to pending; a
  new name and description with the same answer, difficulty and hints leave it approved.\<close>

theorem edit_of_approved_game_witness:
  "(\<exists>g'. map_of (games_dir (snd (handleGameEdit
            \<lparr>games_dir = [(''quiz'', example_approved_game)], games_yaml = []\<rparr> [''7''] ''42'' ''quiz''
            (Some \<lparr>game_name = ''Quiz'', game_description = ''Name the cipher'',
                    game_answer = ''vigenere'', game_difficulty = Some 2,
                    game_hints = ''old\<newline>roman''\<rparr>) ''2025-04-06''))) ''quiz'' = Some g'
         \<and> approved g' = Some False \<and> pending_review g' = Some True \<and> game_state g' = Pending)
   \<and> (\<exists>g'. map_of (games_dir (snd (handleGameEdit
            \<lparr>games_dir = [(''quiz'', example_approved_game)], games_yaml = []\<rparr> [''7''] ''42'' ''quiz''
            (Some \<lparr>game_name = ''Cipher quiz'', game_description = ''Which cipher is it?'',
                    game_answer = ''caesar'', game_difficulty = Some 2,
                    game_hints = ''old\<newline>roman''\<rparr>) ''2025-04-06''))) ''quiz'' = Some g'
         \<and> name g' = ''Cipher quiz'' \<and> approved g' = Some True \<and> game_state g' = Approved)"
proof -
  let ?st = "\<lparr>games_dir = [(''quiz'', example_approved_game)], games_yaml = []\<rparr>"
  let ?f1 = "\<lparr>game_name = ''Quiz'', game_description = ''Name the cipher'',
                    game_answer = ''vigenere'', game_difficulty = Some 2,
                    game_hints = ''old\<newline>roman''\<rparr>"
  let ?f2 = "\<lparr>game_name = ''Cipher quiz'', game_description = ''Which cipher is it?'',
                    game_answer = ''caesar'', game_difficulty = Some 2,
                    game_hints = ''old\<newline>roman''\<rparr>"
  have found: "map_of (games_dir ?st) ''quiz'' = Some example_approved_game" by simp
  have perm: "owner_id example_approved_game = Some ''42'' \<or> isAdmin ''42'' [''7'']" by code_simp
  have state: "game_state example_approved_game = Approved" by code_simp
  have v1: "length (trim (game_name ?f1)) \<le> 100" "length (trim (game_description ?f1)) \<le> 1000"
      "length (trim (game_answer ?f1)) \<le> 100" "length (trim (game_hints ?f1)) \<le> 1500"
      "game_difficulty ?f1 = Some 2" "(1::int) \<le> 2" "(2::int) \<le> 4"
    by code_simp+
  have v2: "length (trim (game_name ?f2)) \<le> 100" "length (trim (game_description ?f2)) \<le> 1000"
      "length (trim (game_answer ?f2)) \<le> 100" "length (trim (game_hints ?f2)) \<le> 1500"
      "game_difficulty ?f2 = Some 2" "(1::int) \<le> 2" "(2::int) \<le> 4"
    by code_simp+
  have c1: "answer example_approved_game \<noteq> trim (game_answer ?f1)" by code_simp
  have c2: "answer example_approved_game = trim (game_answer ?f2)"
    "difficulty example_approved_game = Some 2"
    "hints example_approved_game = Some (parse_hints (trim (game_hints ?f2)))"
    "trim (game_name ?f2) = ''Cipher quiz''" "approved example_approved_game = Some True"
    by code_simp+
  show ?thesis
    using edit_of_approved_game[OF found perm v1 state, of "''2025-04-06''"]
      edit_of_approved_game[OF found perm v2 state, of "''2025-04-06''"] c1 c2
    by (auto simp del: map_of.simps)
qed

text \<open>
  Claim C6 says that after every transition the record carries the marks of exactly one
  state, in particular that it is not marked approved and disabled at once after
  approved \<open>\<rightarrow>\<close> disabled. Disabling sets the disabled keys and touches nothing else: the
  approved example challenge, once disabled, has \<^verbatim>\<open>approved: true\<close> and \<^verbatim>\<open>disabled: true\<close>.
\<close>

theorem disable_leaves_game_marked_approved:
  "game_state example_approved_game = Approved
   \<and> fst (handleDisableGame \<lparr>games_dir = [(''quiz'', example_approved_game)], games_yaml = []\<rparr>
          ''quiz'' ''admin#7'' ''2025-04-05'' NoClick (Some ''broken link'')) = GameDisabled
   \<and> map_of (games_dir (snd (handleDisableGame
          \<lparr>games_dir = [(''quiz'', example_approved_game)], games_yaml = []\<rparr>
          ''quiz'' ''admin#7'' ''2025-04-05'' NoClick (Some ''broken link'')))) ''quiz''
        = Some example_disabled_game
   \<and> approved example_disabled_game = Some True
   \<and> disabled example_disabled_game = Some True"
  by code_simp

text \<open>
  Claim C6 as amended: a confirmed approval leaves the record marked approved and not
  marked rejected, pending review or disabled; a confirmed rejection leaves it marked
  rejected and not marked approved or pending review (\<^verbatim>\<open>approved\<close> and \<^verbatim>\<open>approval_date\<close> are
  removed when it was approved) and keeps its disabled flag; disabling marks it disabled,
  which is the state the listing shows, and retains the approved flag, the approval date
  and the approver; re-enabling removes \<^verbatim>\<open>disabled\<close>, \<^verbatim>\<open>disable_reason\<close> and
  \<^verbatim>\<open>disable_date\<close> and retains the approval keys.
\<close>

theorem transitions_set_and_clear_flags:
  assumes "map_of (games_dir st) gameId = Some g"
  shows "(\<not> truthy (approved g) \<and> \<not> truthy (disabled g) \<longrightarrow>
            (\<exists>g'. map_of (games_dir (snd (handleApproveGame st gameId uid utag today Confirm))) gameId
                     = Some g'
                 \<and> truthy (approved g') \<and> \<not> truthy (rejected g') \<and> \<not> truthy (pending_review g')
                 \<and> \<not> truthy (disabled g') \<and> game_state g' = Approved))
    \<and> (\<exists>g'. map_of (games_dir (snd (handleRejectGame st gameId reason uid utag today Confirm))) gameId
               = Some g'
             \<and> truthy (rejected g') \<and> \<not> truthy (approved g') \<and> \<not> truthy (pending_review g')
             \<and> (truthy (approved g) \<longrightarrow> approved g' = None \<and> approval_date g' = None)
             \<and> disabled g' = disabled g)
    \<and> (\<not> truthy (disabled g) \<longrightarrow>
            (\<exists>g'. map_of (games_dir (snd (handleDisableGame st gameId utag today click (Some reasonText))))
                     gameId = Some g'
                 \<and> truthy (disabled g') \<and> game_state g' = Disabled
                 \<and> approved g' = approved g \<and> approval_date g' = approval_date g
                 \<and> approver_id g' = approver_id g \<and> approver_name g' = approver_name g))
    \<and> (truthy (disabled g) \<longrightarrow>
            (\<exists>g'. map_of (games_dir (snd (handleDisableGame st gameId utag today Confirm modal)))
                     gameId = Some g'
                 \<and> disabled g' = None \<and> disable_reason g' = None \<and> disable_date g' = None
                 \<and> approved g' = approved g \<and> approval_date g' = approval_date g
                 \<and> approver_id g' = approver_id g \<and> approver_name g' = approver_name g))"
proof (intro conjI impI)
  assume a: "\<not> truthy (approved g) \<and> \<not> truthy (disabled g)"
  let ?u = "approve_updatedGame (sanitizeGameData g) uid utag today"
  have h: "handleApproveGame st gameId uid utag today Confirm
           = (GameApproved, maker_manage_reloadGamesConfig (writeGameFile st gameId ?u))"
    using handleApproveGame_confirm[OF assms] a by simp
  have "truthy (approved ?u) \<and> \<not> truthy (rejected ?u) \<and> \<not> truthy (pending_review ?u)
        \<and> \<not> truthy (disabled ?u)"
    by (simp add: approve_updatedGame_fields) (simp add: truthy_def)
  then show "\<exists>g'. map_of (games_dir (snd (handleApproveGame st gameId uid utag today Confirm))) gameId
                     = Some g'
                 \<and> truthy (approved g') \<and> \<not> truthy (rejected g') \<and> \<not> truthy (pending_review g')
                 \<and> \<not> truthy (disabled g') \<and> game_state g' = Approved"
    by (simp add: h written_game_survives_reload game_state_def)
next
  let ?u = "reject_updatedGame (sanitizeGameData g) reason uid utag today"
  have "truthy (rejected ?u)" by (simp add: reject_updatedGame_fields) (simp add: truthy_def)
  moreover have "truthy (approved g) \<longrightarrow> approved ?u = None \<and> approval_date ?u = None"
    using reject_updatedGame_fields(9)[of "sanitizeGameData g" reason uid utag today] by simp
  ultimately show "\<exists>g'. map_of (games_dir (snd (handleRejectGame st gameId reason uid utag today Confirm)))
               gameId = Some g'
             \<and> truthy (rejected g') \<and> \<not> truthy (approved g') \<and> \<not> truthy (pending_review g')
             \<and> (truthy (approved g) \<longrightarrow> approved g' = None \<and> approval_date g' = None)
             \<and> disabled g' = disabled g"
    by (simp add: handleRejectGame_confirm[OF assms] written_game_survives_reload
          reject_updatedGame_fields)
next
  assume a: "\<not> truthy (disabled g)"
  let ?u = "disable_updatedGame (sanitizeGameData g) (trim reasonText) utag today"
  have "truthy (disabled ?u)" by (simp add: disable_updatedGame_fields) (simp add: truthy_def)
  then show "\<exists>g'. map_of (games_dir (snd (handleDisableGame st gameId utag today click (Some reasonText))))
                     gameId = Some g'
                 \<and> truthy (disabled g') \<and> game_state g' = Disabled
                 \<and> approved g' = approved g \<and> approval_date g' = approval_date g
                 \<and> approver_id g' = approver_id g \<and> approver_name g' = approver_name g"
    by (simp add: handleDisableGame_submit[OF assms a] written_game_survives_reload
          disable_updatedGame_fields game_state_def)
next
  assume a: "truthy (disabled g)"
  show "\<exists>g'. map_of (games_dir (snd (handleDisableGame st gameId utag today Confirm modal)))
                     gameId = Some g'
                 \<and> disabled g' = None \<and> disable_reason g' = None \<and> disable_date g' = None
                 \<and> approved g' = approved g \<and> approval_date g' = approval_date g
                 \<and> approver_id g' = approver_id g \<and> approver_name g' = approver_name g"
    by (simp add: handleDisableGame_reenable[OF assms a] written_game_survives_reload
          enable_updatedGame_fields)
qed

text \<open>The theorem at the approved example challenge, disabled and rejected.\<close>

theorem transitions_set_and_clear_flags_witness:
  "(\<exists>g'. map_of (games_dir (snd (handleDisableGame
            \<lparr>games_dir = [(''quiz'', example_approved_game)], games_yaml = []\<rparr>
            ''quiz'' ''admin#7'' ''2025-04-05'' NoClick (Some ''broken link'')))) ''quiz'' = Some g'
         \<and> truthy (disabled g') \<and> game_state g' = Disabled \<and> approved g' = Some True)
   \<and> (\<exists>g'. map_of (games_dir (snd (handleRejectGame
            \<lparr>games_dir = [(''quiz'', example_approved_game)], games_yaml = []\<rparr>
            ''quiz'' ''too easy'' ''7'' ''admin#7'' ''2025-04-05'' Confirm))) ''quiz'' = Some g'
         \<and> truthy (rejected g') \<and> approved g' = None \<and> approval_date g' = None)"
proof -
  let ?st = "\<lparr>games_dir = [(''quiz'', example_approved_game)], games_yaml = []\<rparr>"
  have 1: "map_of (games_dir ?st) ''quiz'' = Some example_approved_game" by simp
  have 2: "\<not> truthy (disabled example_approved_game)" "truthy (approved example_approved_game)"
    "approved example_approved_game = Some True"
    by code_simp+
  show ?thesis
    using transitions_set_and_clear_flags[OF 1, of "''7''" "''admin#7''" "''2025-04-05''"
            "''too easy''" NoClick "''broken link''" None] 2
    by (auto simp del: map_of.simps)
qed

end
